theory Spec2Isabelle
  imports Main
begin

section \<open>Configuration (saas\_skeleton\_rate\_limit.py, lines 41--61)\<close>

datatype UserTypeEnum = NORMAL | VIP | ENTERPRISE

text \<open>\<open>UserTypeEnum\<close> is a \<open>str\<close> enum; \<open>.value\<close> is the member's string.\<close>

fun user_type_value :: "UserTypeEnum \<Rightarrow> string" where
  "user_type_value NORMAL = ''NORMAL''"
| "user_type_value VIP = ''VIP''"
| "user_type_value ENTERPRISE = ''ENTERPRISE''"

text \<open>The two module-level dicts, in source order. The source's comment on the last
  entry of \<open>API_KEY_QUOTA\<close> reads "0 means unlimited in our logic".\<close>

definition API_KEY_QUOTA :: "(string \<times> int) list" where
  "API_KEY_QUOTA = [(''NORMAL'', 10), (''VIP'', 100), (''ENTERPRISE'', 0)]"

definition DEFAULT_SCOPES :: "(string \<times> string list) list" where
  "DEFAULT_SCOPES =
     [(''NORMAL'', [''generate:text'']),
      (''VIP'', [''generate:text'', ''generate:image'', ''tts'']),
      (''ENTERPRISE'', [''generate:text'', ''generate:image'', ''tts'', ''generate:video'', ''admin''])]"

text \<open>Python's \<open>d.get(k, default)\<close>.\<close>

definition dict_get :: "('k \<times> 'v) list \<Rightarrow> 'k \<Rightarrow> 'v \<Rightarrow> 'v" where
  "dict_get d k dflt = (case map_of d k of None \<Rightarrow> dflt | Some v \<Rightarrow> v)"

section \<open>Rate limiter (lines 159--185)\<close>

text \<open>
  The Redis store holds one counter per key \<open>rl:user:{user_id}:{now_s}\<close>. Two integers
  printed in decimal and separated by a colon determine the key, so the key is modelled
  as the pair \<open>(user_id, now_s)\<close>. A counter has its value and, once \<open>EXPIRE\<close> ran, its
  time-to-live in seconds. A key created inside second \<open>now_s\<close> with a time-to-live of two
  seconds outlives that second, so removal by expiry never affects a counter while calls
  can still address it; removal is not modelled.
\<close>

record counter =
  cnt :: int
  ttl :: "int option"

type_synonym rstore = "int \<times> int \<Rightarrow> counter option"

text \<open>What the Redis client does during one call of the limiter: both commands work,
  \<open>INCR\<close> raises \<open>RedisError\<close>, or \<open>INCR\<close> works and \<open>EXPIRE\<close> raises it.\<close>

datatype redis_status = RedisOK | IncrRaises | ExpireRaises

text \<open>\<open>INCR\<close>: a missing key counts as 0; the new value is returned.\<close>

definition redis_incr :: "rstore \<Rightarrow> int \<times> int \<Rightarrow> int \<times> rstore" where
  "redis_incr st key =
     (case st key of
        None \<Rightarrow> (1, st(key \<mapsto> \<lparr>cnt = 1, ttl = None\<rparr>))
      | Some c \<Rightarrow> (cnt c + 1, st(key \<mapsto> c\<lparr>cnt := cnt c + 1\<rparr>)))"

definition redis_expire :: "rstore \<Rightarrow> int \<times> int \<Rightarrow> int \<Rightarrow> rstore" where
  "redis_expire st key secs =
     (case st key of None \<Rightarrow> st | Some c \<Rightarrow> st(key \<mapsto> c\<lparr>ttl := Some secs\<rparr>))"

text \<open>The result \<open>(allowed, info)\<close>; \<open>info\<close> is \<open>{"limit": limit, "current": cur}\<close>.\<close>

type_synonym verdict = "bool \<times> (int \<times> int) option"

definition rate_limit_check_by_user ::
  "redis_status \<Rightarrow> rstore \<Rightarrow> int \<Rightarrow> string \<Rightarrow> int \<Rightarrow> verdict \<times> rstore" where
  "rate_limit_check_by_user rs st user_id user_type now_s =
     (if user_type = user_type_value ENTERPRISE then ((True, None), st)
      else
        let limit = dict_get API_KEY_QUOTA user_type 10 in
        if limit \<le> 0 then ((True, None), st)
        else
          let key = (user_id, now_s) in
          if rs = IncrRaises then ((True, None), st)
          else
            let (cur, st1) = redis_incr st key in
            if cur = 1 \<and> rs = ExpireRaises then ((True, None), st1)
            else
              let st2 = (if cur = 1 then redis_expire st1 key 2 else st1) in
              if cur > limit then ((False, Some (limit, cur)), st2)
              else ((True, None), st2))"

text \<open>A sequence of limiter calls against the shared store. Redis executes \<open>INCR\<close>
  atomically and the verdict of a call depends only on the value its \<open>INCR\<close> returned, so
  concurrent calls behave as the list of the calls in the order of their \<open>INCR\<close>s.\<close>

record call =
  c_user_id :: int
  c_user_type :: string
  c_now_s :: int
  c_redis :: redis_status

fun admit_calls :: "rstore \<Rightarrow> call list \<Rightarrow> verdict list \<times> rstore" where
  "admit_calls st [] = ([], st)"
| "admit_calls st (c # cs) =
     (let (r, st1) = rate_limit_check_by_user (c_redis c) st (c_user_id c) (c_user_type c) (c_now_s c);
          (rs, st2) = admit_calls st1 cs
      in (r # rs, st2))"

text \<open>The value of a counter, 0 where Redis has no such key, and the number of calls of a
  list that address a given key and were admitted, or throttled.\<close>

definition counter_value :: "rstore \<Rightarrow> int \<times> int \<Rightarrow> int" where
  "counter_value st key = (case st key of None \<Rightarrow> 0 | Some c \<Rightarrow> cnt c)"

definition at_key :: "int \<times> int \<Rightarrow> call \<Rightarrow> bool" where
  "at_key key c = ((c_user_id c, c_now_s c) = key)"

definition admitted_at :: "int \<times> int \<Rightarrow> rstore \<Rightarrow> call list \<Rightarrow> nat" where
  "admitted_at key st cs =
     length (filter (\<lambda>(c, r). at_key key c \<and> fst r) (zip cs (fst (admit_calls st cs))))"

definition throttled_at :: "int \<times> int \<Rightarrow> rstore \<Rightarrow> call list \<Rightarrow> nat" where
  "throttled_at key st cs =
     length (filter (\<lambda>(c, r). at_key key c \<and> \<not> fst r) (zip cs (fst (admit_calls st cs))))"

section \<open>Data model (lines 79--116)\<close>

text \<open>The three tables. Timestamps are integers on one scale (microseconds from
  \<open>datetime.min\<close>, the resolution of \<open>datetime\<close>); a nullable column is an option.\<close>

record Org =
  o_id :: int
  o_name :: string

record User =
  u_id :: int
  u_org_id :: int
  username :: string
  hashed_password :: string
  is_admin :: bool
  user_type :: UserTypeEnum

record APIKey =
  k_id :: int
  k_org_id :: int
  k_user_id :: int
  key_hash :: string
  key_preview :: string
  k_name :: "string option"
  scopes :: "string option"
  revoked :: bool
  created_at :: int
  expires_at :: "int option"

record DB =
  orgs :: "Org list"
  users :: "User list"
  api_keys :: "APIKey list"

text \<open>
  Every raise of the source is a value. \<open>HTTPException\<close> carries its status code and its
  detail; the details are the source's messages, one constructor each, with the values
  the message interpolates. An exception that no handler of the source catches leaves the
  request as it is: \<open>SQLAlchemyError\<close> when the database cannot be reached,
  \<open>IntegrityError\<close> when a commit violates a \<open>unique=True\<close> column, \<open>PyTypeError\<close> when
  \<open>int()\<close> is applied to a claim that is missing or no integer literal, \<open>OverflowError\<close>
  when \<open>timedelta\<close> or the sum of a \<open>datetime\<close> and a \<open>timedelta\<close> leaves its range.
\<close>

datatype detail =
    Invalid_API_key
  | API_key_expired
  | User_not_found
  | Invalid_auth_scheme
  | Invalid_token
  | Org_mismatch_in_token
  | No_authentication_provided
  | Only_JWT_users_can_create_keys
  | API_key_quota_exceeded string int
  | Only_JWT_users_can_revoke_keys
  | API_key_not_found
  | Rate_limit_exceeded int int
  | API_key_missing_required_scope
  | Org_exists

datatype error =
    HTTPException nat detail
  | SQLAlchemyError
  | IntegrityError
  | PyTypeError
  | OverflowError

text \<open>The spec's error kinds, read off the status code and detail (spec section 6:
  Unauthenticated is 401, Throttled is 429, Forbidden and QuotaExceeded are 403).\<close>

fun Unauthenticated :: "error \<Rightarrow> bool" where
  "Unauthenticated (HTTPException c d) = (c = 401)"
| "Unauthenticated _ = False"

fun QuotaExceeded :: "error \<Rightarrow> bool" where
  "QuotaExceeded (HTTPException c (API_key_quota_exceeded t q)) = (c = 403)"
| "QuotaExceeded _ = False"

fun Forbidden :: "error \<Rightarrow> bool" where
  "Forbidden (HTTPException c API_key_missing_required_scope) = (c = 403)"
| "Forbidden _ = False"

fun Throttled :: "error \<Rightarrow> bool" where
  "Throttled (HTTPException c (Rate_limit_exceeded l n)) = (c = 429)"
| "Throttled _ = False"

text \<open>
  \<open>db.query(T).filter_by(...)\<close>: the rows of a table that satisfy the filter, in table
  order. The session is \<open>None\<close> when the database cannot be reached; then the query
  raises. \<open>.first()\<close> is the first row or \<open>None\<close>, \<open>.count()\<close> the number of rows.
\<close>

definition query :: "DB option \<Rightarrow> (DB \<Rightarrow> 'r list) \<Rightarrow> ('r \<Rightarrow> bool) \<Rightarrow> error + 'r list" where
  "query db tbl p = (case db of None \<Rightarrow> Inl SQLAlchemyError | Some d \<Rightarrow> Inr (filter p (tbl d)))"

fun first :: "'r list \<Rightarrow> 'r option" where
  "first [] = None"
| "first (x # xs) = Some x"

text \<open>The integer primary key of a new row: one more than the largest in the table.\<close>

definition next_id :: "int list \<Rightarrow> int" where
  "next_id ids = fold max ids 0 + 1"

section \<open>Utilities (lines 129--154)\<close>

definition mask_key :: "string \<Rightarrow> string" where
  "mask_key key = (if length key \<le> 9 then key else take 5 key @ ''****'' @ drop (length key - 4) key)"

text \<open>\<open>sep.join(xs)\<close> and \<open>s.split(",")\<close>.\<close>

fun join :: "string \<Rightarrow> string list \<Rightarrow> string" where
  "join sep [] = []"
| "join sep [x] = x"
| "join sep (x # y # ys) = x @ sep @ join sep (y # ys)"

fun split :: "char \<Rightarrow> string \<Rightarrow> string list" where
  "split c [] = [[]]"
| "split c (x # xs) =
     (if x = c then [] # split c xs
      else (case split c xs of [] \<Rightarrow> [[x]] | w # ws \<Rightarrow> (x # w) # ws))"

text \<open>
  The claims of a session token. \<open>sub\<close> and \<open>org\<close> hold what \<open>int(payload.get(...))\<close>
  evaluates to, \<open>None\<close> where that call raises. \<open>token\<close> (line 274) and
  \<open>create_access_token\<close> (lines 141--147) build the claims of a new token; signing them
  and checking a signature are \<open>jose.jwt.encode\<close> and \<open>jose.jwt.decode\<close>, functions of a
  library, so \<open>decode_access_token\<close> takes the latter as a parameter.
\<close>

record payload =
  sub :: "int option"
  org :: "int option"
  p_user_type :: string
  iat :: int
  exp :: int

datatype jwt_error = ExpiredSignatureError | JWTClaimsError | JWTError

definition ACCESS_TOKEN_EXPIRE_MINUTES :: int where
  "ACCESS_TOKEN_EXPIRE_MINUTES = 60"

definition create_access_token :: "User \<Rightarrow> int \<Rightarrow> payload" where
  "create_access_token user now =
     \<lparr>sub = Some (u_id user), org = Some (u_org_id user),
      p_user_type = user_type_value (user_type user),
      iat = now, exp = now + ACCESS_TOKEN_EXPIRE_MINUTES * 60\<rparr>"

definition decode_access_token :: "(string \<Rightarrow> jwt_error + payload) \<Rightarrow> string \<Rightarrow> jwt_error + payload" where
  "decode_access_token jwt_decode token =
     (case jwt_decode token of Inl e \<Rightarrow> Inl e | Inr p \<Rightarrow> Inr p)"

section \<open>Auth dependency (lines 281--312)\<close>

text \<open>A header is an optional string; \<open>if x_api_key:\<close> holds for a header that is
  present and not empty.\<close>

fun present :: "string option \<Rightarrow> bool" where
  "present None = False"
| "present (Some s) = (s \<noteq> [])"

fun header :: "string option \<Rightarrow> string" where
  "header None = []"
| "header (Some s) = s"

text \<open>\<open>authorization.partition(" ")\<close>: the text before the first space and the text
  after it; \<open>scheme.lower()\<close> on the letters A to Z.\<close>

definition partition_space :: "string \<Rightarrow> string \<times> string" where
  "partition_space s =
     (takeWhile (\<lambda>c. c \<noteq> CHR '' '') s, drop 1 (dropWhile (\<lambda>c. c \<noteq> CHR '' '') s))"

definition lower_char :: "char \<Rightarrow> char" where
  "lower_char c =
     (case map_of (zip ''ABCDEFGHIJKLMNOPQRSTUVWXYZ'' ''abcdefghijklmnopqrstuvwxyz'') c of
        None \<Rightarrow> c
      | Some l \<Rightarrow> l)"

definition lower :: "string \<Rightarrow> string" where
  "lower s = map lower_char s"

text \<open>The dict that \<open>get_current_user\<close> returns.\<close>

record Auth =
  a_user :: User
  auth_type :: string
  api_obj :: "APIKey option"
  token_payload :: "payload option"

text \<open>
  \<open>hash_key_hmac\<close> is HMAC-SHA256 under the server's secret, a parameter here, as are
  \<open>jwt_decode\<close> and the clock \<open>utcnow\<close>.
\<close>

definition api_key_auth :: "(string \<Rightarrow> string) \<Rightarrow> int \<Rightarrow> string \<Rightarrow> DB option \<Rightarrow> error + Auth" where
  "api_key_auth hash_key_hmac utcnow x_api_key db =
     (let key_h = hash_key_hmac x_api_key in
      case query db api_keys (\<lambda>k. key_hash k = key_h \<and> revoked k = False) of
        Inl e \<Rightarrow> Inl e
      | Inr ks \<Rightarrow>
          (case first ks of
             None \<Rightarrow> Inl (HTTPException 401 Invalid_API_key)
           | Some api \<Rightarrow>
               if (case expires_at api of None \<Rightarrow> False | Some t \<Rightarrow> t < utcnow)
               then Inl (HTTPException 401 API_key_expired)
               else
                 (case query db users (\<lambda>u. u_id u = k_user_id api) of
                    Inl e \<Rightarrow> Inl e
                  | Inr us \<Rightarrow>
                      (case first us of
                         None \<Rightarrow> Inl (HTTPException 401 User_not_found)
                       | Some user \<Rightarrow>
                           Inr \<lparr>a_user = user, auth_type = ''api_key'',
                                api_obj = Some api, token_payload = None\<rparr>))))"

definition bearer_auth :: "(string \<Rightarrow> jwt_error + payload) \<Rightarrow> string \<Rightarrow> DB option \<Rightarrow> error + Auth" where
  "bearer_auth jwt_decode authorization db =
     (let (scheme, token) = partition_space authorization in
      if lower scheme \<noteq> ''bearer'' then Inl (HTTPException 401 Invalid_auth_scheme)
      else
        (case decode_access_token jwt_decode token of
           Inl e \<Rightarrow> Inl (HTTPException 401 Invalid_token)
         | Inr p \<Rightarrow>
             (case sub p of
                None \<Rightarrow> Inl PyTypeError
              | Some user_id \<Rightarrow>
                  (case org p of
                     None \<Rightarrow> Inl PyTypeError
                   | Some org_id \<Rightarrow>
                       (case query db users (\<lambda>u. u_id u = user_id) of
                          Inl e \<Rightarrow> Inl e
                        | Inr us \<Rightarrow>
                            (case first us of
                               None \<Rightarrow> Inl (HTTPException 401 User_not_found)
                             | Some user \<Rightarrow>
                                 if u_org_id user \<noteq> org_id
                                 then Inl (HTTPException 401 Org_mismatch_in_token)
                                 else Inr \<lparr>a_user = user, auth_type = ''jwt'',
                                           api_obj = None, token_payload = Some p\<rparr>))))))"

definition get_current_user ::
  "(string \<Rightarrow> string) \<Rightarrow> (string \<Rightarrow> jwt_error + payload) \<Rightarrow> int \<Rightarrow>
   string option \<Rightarrow> string option \<Rightarrow> DB option \<Rightarrow> error + Auth" where
  "get_current_user hash_key_hmac jwt_decode utcnow x_api_key authorization db =
     (if present x_api_key then api_key_auth hash_key_hmac utcnow (header x_api_key) db
      else if present authorization then bearer_auth jwt_decode (header authorization) db
      else Inl (HTTPException 401 No_authentication_provided))"

section \<open>API key management (lines 317--389)\<close>

record APIKeyCreateReq =
  r_name :: "string option"
  r_expires_days :: "int option"
  r_scopes :: "string list option"

text \<open>The response of \<open>create_api_key\<close>: the fields of the new row, the plaintext key
  and the scope list.\<close>

record APIKeyOut =
  out_api :: APIKey
  out_key :: string
  out_scopes :: "string list"

text \<open>
  \<open>datetime.utcnow() + timedelta(days=n)\<close> (line 336). A \<open>datetime\<close> is counted in
  microseconds from \<open>datetime.min\<close>, midnight of 1 January of the year 1;
  \<open>datetime.max\<close> is the last microsecond of the year 9999, whose last day has the
  ordinal 3652059. \<open>timedelta\<close> takes at most 999999999 days in either direction, and
  the sum must be a \<open>datetime\<close>; both raise \<open>OverflowError\<close> otherwise.
\<close>

definition datetime_max :: int where
  "datetime_max = 3652059 * 86400000000 - 1"

definition add_days :: "int \<Rightarrow> int \<Rightarrow> error + int" where
  "add_days t n =
     (if \<bar>n\<bar> > 999999999 then Inl OverflowError
      else
        let r = t + n * 86400000000 in
        if r < 0 \<or> r > datetime_max then Inl OverflowError else Inr r)"

text \<open>Lines 334--336: no expiry unless \<open>req.expires_days\<close> is given and not 0.\<close>

definition key_expiry :: "int \<Rightarrow> APIKeyCreateReq \<Rightarrow> error + int option" where
  "key_expiry utcnow req =
     (case r_expires_days req of
        None \<Rightarrow> Inr None
      | Some n \<Rightarrow>
          if n = 0 then Inr None
          else (case add_days utcnow n of Inl e \<Rightarrow> Inl e | Inr t \<Rightarrow> Inr (Some t)))"

text \<open>
  \<open>clear_key\<close> is what \<open>gen_api_key\<close> drew from \<open>secrets.token_hex\<close>. The commit inserts
  the row unless its \<open>key_hash\<close> is already in the table (\<open>unique=True\<close>, line 107).
\<close>

definition create_api_key ::
  "(string \<Rightarrow> string) \<Rightarrow> int \<Rightarrow> string \<Rightarrow> APIKeyCreateReq \<Rightarrow> Auth \<Rightarrow> DB option \<Rightarrow> error + APIKeyOut \<times> DB" where
  "create_api_key hash_key_hmac utcnow clear_key req auth db =
     (if auth_type auth \<noteq> ''jwt'' then Inl (HTTPException 403 Only_JWT_users_can_create_keys)
      else
        let user = a_user auth;
            quota = dict_get API_KEY_QUOTA (user_type_value (user_type user)) 10 in
        case query db api_keys (\<lambda>k. k_user_id k = u_id user \<and> revoked k = False) of
          Inl e \<Rightarrow> Inl e
        | Inr ks \<Rightarrow>
            let existing_count = int (length ks) in
            if existing_count \<ge> quota
            then Inl (HTTPException 403 (API_key_quota_exceeded (user_type_value (user_type user)) quota))
            else
              let key_h = hash_key_hmac clear_key;
                  preview = mask_key clear_key;
                  scopes_list = (case r_scopes req of
                              Some xs \<Rightarrow> xs
                            | None \<Rightarrow> dict_get DEFAULT_SCOPES (user_type_value (user_type user)) [''generate:text'']);
                  scopes_str = join '','' scopes_list
              in
              (case key_expiry utcnow req of
                 Inl e \<Rightarrow> Inl e
               | Inr expires \<Rightarrow>
                   (case db of
                      None \<Rightarrow> Inl SQLAlchemyError
                    | Some d \<Rightarrow>
                        if \<exists>k \<in> set (api_keys d). key_hash k = key_h then Inl IntegrityError
                        else
                          let api = \<lparr>k_id = next_id (map k_id (api_keys d)), k_org_id = u_org_id user,
                                     k_user_id = u_id user, key_hash = key_h, key_preview = preview,
                                     k_name = r_name req, scopes = Some scopes_str, revoked = False,
                                     created_at = utcnow, expires_at = expires\<rparr>
                          in Inr (\<lparr>out_api = api, out_key = clear_key, out_scopes = scopes_list\<rparr>,
                                  d\<lparr>api_keys := api_keys d @ [api]\<rparr>))))"

text \<open>The commit of \<open>revoke_api_key\<close> is an update of the row with the loaded primary key.
  The response is \<open>{"status": "revoked", "id": api.id}\<close>, here the id.\<close>

definition revoke_api_key :: "int \<Rightarrow> Auth \<Rightarrow> DB option \<Rightarrow> error + int \<times> DB" where
  "revoke_api_key key_id auth db =
     (if auth_type auth \<noteq> ''jwt'' then Inl (HTTPException 403 Only_JWT_users_can_revoke_keys)
      else
        let user = a_user auth in
        case query db api_keys (\<lambda>k. k_id k = key_id \<and> k_user_id k = u_id user) of
          Inl e \<Rightarrow> Inl e
        | Inr ks \<Rightarrow>
            (case first ks of
               None \<Rightarrow> Inl (HTTPException 404 API_key_not_found)
             | Some api \<Rightarrow>
                 (case db of
                    None \<Rightarrow> Inl SQLAlchemyError
                  | Some d \<Rightarrow>
                      Inr (k_id api,
                           d\<lparr>api_keys := map (\<lambda>k. if k_id k = k_id api then k\<lparr>revoked := True\<rparr> else k)
                                             (api_keys d)\<rparr>))))"

section \<open>Protected endpoint (lines 394--419)\<close>

text \<open>The two success responses: the organisation id and the user name that the message
  interpolates.\<close>

datatype generated = By_api_key_user int string | By_user int string

text \<open>\<open>api_obj.scopes.split(",") if api_obj.scopes else []\<close>.\<close>

definition key_scopes :: "APIKey \<Rightarrow> string list" where
  "key_scopes api =
     (case scopes api of None \<Rightarrow> [] | Some s \<Rightarrow> if s = [] then [] else split CHR '','' s)"

definition generate :: "redis_status \<Rightarrow> int \<Rightarrow> rstore \<Rightarrow> Auth \<Rightarrow> (error + generated) \<times> rstore" where
  "generate rs now_s st auth =
     (let user = a_user auth;
          ((allowed, info), st1) = rate_limit_check_by_user rs st (u_id user) (user_type_value (user_type user)) now_s
      in
      if \<not> allowed then
        (case info of
           Some (limit, current) \<Rightarrow> (Inl (HTTPException 429 (Rate_limit_exceeded limit current)), st1)
         | None \<Rightarrow> (Inl PyTypeError, st1))
      else if auth_type auth = ''api_key'' then
        (case api_obj auth of
           None \<Rightarrow> (Inl PyTypeError, st1)
         | Some api \<Rightarrow>
             let scopes_list = key_scopes api in
             if ''generate:text'' \<notin> set scopes_list
             then (Inl (HTTPException 403 API_key_missing_required_scope), st1)
             else (Inr (By_api_key_user (u_org_id user) (username user)), st1))
      else (Inr (By_user (u_org_id user) (username user)), st1))"

text \<open>
  A request as the framework serves it: the dependency \<open>get_current_user\<close> runs first,
  and the endpoint's body only once it returned.
\<close>

definition generate_request ::
  "(string \<Rightarrow> string) \<Rightarrow> (string \<Rightarrow> jwt_error + payload) \<Rightarrow> int \<Rightarrow> redis_status \<Rightarrow> int \<Rightarrow>
   string option \<Rightarrow> string option \<Rightarrow> DB option \<Rightarrow> rstore \<Rightarrow> (error + generated) \<times> rstore" where
  "generate_request hash_key_hmac jwt_decode utcnow rs now_s x_api_key authorization db st =
     (case get_current_user hash_key_hmac jwt_decode utcnow x_api_key authorization db of
        Inl e \<Rightarrow> (Inl e, st)
      | Inr auth \<Rightarrow> generate rs now_s st auth)"

definition create_api_key_request ::
  "(string \<Rightarrow> string) \<Rightarrow> (string \<Rightarrow> jwt_error + payload) \<Rightarrow> int \<Rightarrow> string \<Rightarrow> APIKeyCreateReq \<Rightarrow>
   string option \<Rightarrow> string option \<Rightarrow> DB option \<Rightarrow> error + APIKeyOut \<times> DB" where
  "create_api_key_request hash_key_hmac jwt_decode utcnow clear_key req x_api_key authorization db =
     (case get_current_user hash_key_hmac jwt_decode utcnow x_api_key authorization db of
        Inl e \<Rightarrow> Inl e
      | Inr auth \<Rightarrow> create_api_key hash_key_hmac utcnow clear_key req auth db)"

definition revoke_api_key_request ::
  "(string \<Rightarrow> string) \<Rightarrow> (string \<Rightarrow> jwt_error + payload) \<Rightarrow> int \<Rightarrow> int \<Rightarrow>
   string option \<Rightarrow> string option \<Rightarrow> DB option \<Rightarrow> error + int \<times> DB" where
  "revoke_api_key_request hash_key_hmac jwt_decode utcnow key_id x_api_key authorization db =
     (case get_current_user hash_key_hmac jwt_decode utcnow x_api_key authorization db of
        Inl e \<Rightarrow> Inl e
      | Inr auth \<Rightarrow> revoke_api_key key_id auth db)"

text \<open>The limiter call that \<open>generate\<close> makes for a resolved caller (line 404).\<close>

definition admit :: "redis_status \<Rightarrow> rstore \<Rightarrow> Auth \<Rightarrow> int \<Rightarrow> verdict \<times> rstore" where
  "admit rs st auth now_s =
     rate_limit_check_by_user rs st (u_id (a_user auth)) (user_type_value (user_type (a_user auth))) now_s"

section \<open>Signup (lines 254--267) and sequences of requests\<close>

text \<open>
  \<open>signup\<close> commits the organisation before it adds the user, so a duplicate user name
  (\<open>unique=True\<close>, line 94) fails after the organisation is stored; the function returns
  the database next to its result. \<open>hashed\<close> is what \<open>get_password_hash\<close> returned.
\<close>

definition signup ::
  "string \<Rightarrow> string \<Rightarrow> string \<Rightarrow> bool \<Rightarrow> UserTypeEnum \<Rightarrow> DB option \<Rightarrow> (error + int \<times> int \<times> string) \<times> DB option" where
  "signup org_name uname hashed admin utype db =
     (case query db orgs (\<lambda>g. o_name g = org_name) of
        Inl e \<Rightarrow> (Inl e, db)
      | Inr os \<Rightarrow>
          (case first os of
             Some x \<Rightarrow> (Inl (HTTPException 400 Org_exists), db)
           | None \<Rightarrow>
               (case db of
                  None \<Rightarrow> (Inl SQLAlchemyError, db)
                | Some d \<Rightarrow>
                    let org = \<lparr>o_id = next_id (map o_id (orgs d)), o_name = org_name\<rparr>;
                        d1 = d\<lparr>orgs := orgs d @ [org]\<rparr>
                    in
                    if \<exists>u \<in> set (users d1). username u = uname then (Inl IntegrityError, Some d1)
                    else
                      let user = \<lparr>u_id = next_id (map u_id (users d1)), u_org_id = o_id org,
                                   username = uname, hashed_password = hashed,
                                   is_admin = admin, user_type = utype\<rparr>
                      in (Inr (o_id org, u_id user, username user),
                          Some (d1\<lparr>users := users d1 @ [user]\<rparr>)))))"

text \<open>
  The requests that write to the database, each with its inputs, and the database after
  serving one: a request that fails leaves the tables as they were, apart from what it
  had committed before. A request served while the database cannot be reached commits
  nothing, so such requests need no place in a sequence.
\<close>

datatype request =
    Signup_request string string string bool UserTypeEnum
  | Create_request "string \<Rightarrow> jwt_error + payload" int string APIKeyCreateReq "string option" "string option"
  | Revoke_request "string \<Rightarrow> jwt_error + payload" int int "string option" "string option"

fun serve :: "(string \<Rightarrow> string) \<Rightarrow> DB \<Rightarrow> request \<Rightarrow> DB" where
  "serve H d (Signup_request org_name uname hashed admin utype) =
     (case snd (signup org_name uname hashed admin utype (Some d)) of None \<Rightarrow> d | Some d' \<Rightarrow> d')"
| "serve H d (Create_request jwt_decode utcnow clear_key req x_api_key authorization) =
     (case create_api_key_request H jwt_decode utcnow clear_key req x_api_key authorization (Some d) of
        Inl e \<Rightarrow> d
      | Inr (out, d') \<Rightarrow> d')"
| "serve H d (Revoke_request jwt_decode utcnow key_id x_api_key authorization) =
     (case revoke_api_key_request H jwt_decode utcnow key_id x_api_key authorization (Some d) of
        Inl e \<Rightarrow> d
      | Inr (r, d') \<Rightarrow> d')"

definition serve_all :: "(string \<Rightarrow> string) \<Rightarrow> DB \<Rightarrow> request list \<Rightarrow> DB" where
  "serve_all H d rs = fold (\<lambda>r d. serve H d r) rs d"

text \<open>The live keys of a user, which \<open>create_api_key\<close> counts, and the update that
  \<open>revoke_api_key\<close> commits to each row.\<close>

definition live_keys :: "DB \<Rightarrow> int \<Rightarrow> APIKey list" where
  "live_keys d uid = filter (\<lambda>k. k_user_id k = uid \<and> revoked k = False) (api_keys d)"

definition mark_revoked :: "int \<Rightarrow> APIKey \<Rightarrow> APIKey" where
  "mark_revoked kid k = (if k_id k = kid then k\<lparr>revoked := True\<rparr> else k)"

text \<open>A hash that some key has and that only revoked keys have.\<close>

definition revoked_for_good :: "string \<Rightarrow> DB \<Rightarrow> bool" where
  "revoked_for_good h d =
     ((\<exists>k \<in> set (api_keys d). key_hash k = h) \<and> (\<forall>k \<in> set (api_keys d). key_hash k = h \<longrightarrow> revoked k))"

section \<open>The limiter and the ENTERPRISE tier\<close>

lemma enterprise_step:
  "rate_limit_check_by_user rs st uid ''ENTERPRISE'' now_s = ((True, None), st)"
  by (simp add: rate_limit_check_by_user_def)

text \<open>
  Claim C7. A caller of the ENTERPRISE tier is always admitted and the limiter leaves the
  counter store as it was: whatever the store, the clock and the state of Redis, any list
  of calls whose user type is ENTERPRISE yields one \<open>(True, None)\<close> per call and returns
  the very store it started from.
\<close>

theorem enterprise_bypasses_counter:
  "admit_calls st (map (\<lambda>(uid, now_s, rs).
       \<lparr>c_user_id = uid, c_user_type = user_type_value ENTERPRISE, c_now_s = now_s, c_redis = rs\<rparr>) xs)
   = (replicate (length xs) (True, None), st)"
  by (induction xs) (auto simp: enterprise_step)

section \<open>The limiter counts before it compares\<close>

lemma limiter_step_ok:
  assumes "utype \<noteq> ''ENTERPRISE''" and "0 < dict_get API_KEY_QUOTA utype 10"
  shows "fst (rate_limit_check_by_user RedisOK st uid utype now_s) =
           (if counter_value st (uid, now_s) + 1 > dict_get API_KEY_QUOTA utype 10
            then (False, Some (dict_get API_KEY_QUOTA utype 10, counter_value st (uid, now_s) + 1))
            else (True, None))"
    and "counter_value (snd (rate_limit_check_by_user RedisOK st uid utype now_s)) (uid, now_s)
           = counter_value st (uid, now_s) + 1"
  using assms
  by (auto simp: rate_limit_check_by_user_def redis_incr_def redis_expire_def counter_value_def Let_def
           split: option.splits)

lemma limiter_step_other_key:
  "(uid, now_s) \<noteq> key \<Longrightarrow>
   snd (rate_limit_check_by_user rs st uid utype now_s) key = st key"
  by (auto simp: rate_limit_check_by_user_def redis_incr_def redis_expire_def Let_def
           split: option.splits)

lemma admitted_at_Cons:
  "admitted_at key st (c # cs) =
     (if at_key key c \<and> fst (fst (rate_limit_check_by_user (c_redis c) st (c_user_id c) (c_user_type c) (c_now_s c)))
      then 1 else 0)
     + admitted_at key (snd (rate_limit_check_by_user (c_redis c) st (c_user_id c) (c_user_type c) (c_now_s c))) cs"
  by (auto simp: admitted_at_def split: prod.splits)

lemma throttled_at_Cons:
  "throttled_at key st (c # cs) =
     (if at_key key c \<and> \<not> fst (fst (rate_limit_check_by_user (c_redis c) st (c_user_id c) (c_user_type c) (c_now_s c)))
      then 1 else 0)
     + throttled_at key (snd (rate_limit_check_by_user (c_redis c) st (c_user_id c) (c_user_type c) (c_now_s c))) cs"
  by (auto simp: throttled_at_def split: prod.splits)

lemma counter_value_other:
  "(uid, now_s) \<noteq> key \<Longrightarrow>
   counter_value (snd (rate_limit_check_by_user rs st uid utype now_s)) key = counter_value st key"
  by (simp add: counter_value_def limiter_step_other_key)

lemma admitted_at_count:
  assumes "utype \<noteq> ''ENTERPRISE''" and "0 < dict_get API_KEY_QUOTA utype 10"
    and "\<forall>c \<in> set cs. at_key key c \<longrightarrow> c_user_type c = utype \<and> c_redis c = RedisOK"
    and "0 \<le> counter_value st key"
  shows "admitted_at key st cs =
           min (length (filter (at_key key) cs)) (nat (dict_get API_KEY_QUOTA utype 10 - counter_value st key))"
  using assms(3,4)
proof (induction cs arbitrary: st)
  case Nil
  then show ?case by (simp add: admitted_at_def)
next
  case (Cons c cs)
  let ?r = "rate_limit_check_by_user (c_redis c) st (c_user_id c) (c_user_type c) (c_now_s c)"
  show ?case
  proof (cases "at_key key c")
    case True
    then have k: "key = (c_user_id c, c_now_s c)" by (simp add: at_key_def)
    from True Cons.prems have ty: "c_user_type c = utype" and ok: "c_redis c = RedisOK" by auto
    have v: "counter_value (snd ?r) key = counter_value st key + 1"
      using limiter_step_ok(2)[OF assms(1,2)] by (simp add: k ty ok)
    have f: "fst (fst ?r) = (\<not> counter_value st key + 1 > dict_get API_KEY_QUOTA utype 10)"
      using limiter_step_ok(1)[OF assms(1,2), of st "c_user_id c" "c_now_s c"] by (simp add: k ty ok)
    have ih: "admitted_at key (snd ?r) cs =
           min (length (filter (at_key key) cs)) (nat (dict_get API_KEY_QUOTA utype 10 - (counter_value st key + 1)))"
      using Cons.IH[of "snd ?r"] Cons.prems v by simp
    show ?thesis
      using True f ih Cons.prems(2) by (simp add: admitted_at_Cons) linarith
  next
    case False
    then have ne: "(c_user_id c, c_now_s c) \<noteq> key" by (simp add: at_key_def)
    have "counter_value (snd ?r) key = counter_value st key"
      by (rule counter_value_other[OF ne])
    then show ?thesis using False Cons.IH[of "snd ?r"] Cons.prems
      by (simp add: admitted_at_Cons)
  qed
qed

lemma admitted_plus_throttled:
  "admitted_at key st cs + throttled_at key st cs = length (filter (at_key key) cs)"
  by (induction cs arbitrary: st) (auto simp: admitted_at_Cons throttled_at_Cons, auto simp: admitted_at_def throttled_at_def)


text \<open>
  Claim C3. With Redis answering, a user type other than ENTERPRISE and a positive limit,
  one call increments the counter of its (user, second) key and only then compares: the
  verdict is \<open>(False, {limit, current})\<close> with the incremented count exactly when that
  count exceeds the limit, else \<open>(True, None)\<close>. Hence, among any list of calls served
  from a store without a counter for that key (calls for other keys interleaved in any
  order and in any Redis state), the admitted calls for the key number the smaller of
  the calls for the key and the limit, the others are throttled, and the admitted never
  exceed the limit; with a limit of 10 and 15 calls for the key, 10 are admitted and 5
  throttled.
\<close>

theorem limiter_counts_then_compares:
  assumes "utype \<noteq> ''ENTERPRISE''" and "0 < dict_get API_KEY_QUOTA utype 10"
    and "\<forall>c \<in> set cs. at_key (uid, now_s) c \<longrightarrow> c_user_type c = utype \<and> c_redis c = RedisOK"
    and "st0 (uid, now_s) = None"
  shows "fst (rate_limit_check_by_user RedisOK st uid utype now_s) =
           (if counter_value st (uid, now_s) + 1 > dict_get API_KEY_QUOTA utype 10
            then (False, Some (dict_get API_KEY_QUOTA utype 10, counter_value st (uid, now_s) + 1))
            else (True, None))
       \<and> counter_value (snd (rate_limit_check_by_user RedisOK st uid utype now_s)) (uid, now_s)
           = counter_value st (uid, now_s) + 1
       \<and> admitted_at (uid, now_s) st0 cs =
           min (length (filter (at_key (uid, now_s)) cs)) (nat (dict_get API_KEY_QUOTA utype 10))
       \<and> throttled_at (uid, now_s) st0 cs =
           length (filter (at_key (uid, now_s)) cs) - nat (dict_get API_KEY_QUOTA utype 10)
       \<and> int (admitted_at (uid, now_s) st0 cs) \<le> dict_get API_KEY_QUOTA utype 10
       \<and> (dict_get API_KEY_QUOTA utype 10 = 10 \<and> length (filter (at_key (uid, now_s)) cs) = 15
            \<longrightarrow> admitted_at (uid, now_s) st0 cs = 10 \<and> throttled_at (uid, now_s) st0 cs = 5)"
proof -
  have v0: "counter_value st0 (uid, now_s) = 0"
    using assms(4) by (simp add: counter_value_def)
  have a: "admitted_at (uid, now_s) st0 cs =
           min (length (filter (at_key (uid, now_s)) cs)) (nat (dict_get API_KEY_QUOTA utype 10))"
    using admitted_at_count[OF assms(1,2,3), of st0] v0 by simp
  have t: "throttled_at (uid, now_s) st0 cs =
           length (filter (at_key (uid, now_s)) cs) - nat (dict_get API_KEY_QUOTA utype 10)"
    using admitted_plus_throttled[of "(uid, now_s)" st0 cs] a by linarith
  have b: "int (admitted_at (uid, now_s) st0 cs) \<le> dict_get API_KEY_QUOTA utype 10"
    using a assms(2) by linarith
  have c: "dict_get API_KEY_QUOTA utype 10 = 10 \<and> length (filter (at_key (uid, now_s)) cs) = 15
            \<longrightarrow> admitted_at (uid, now_s) st0 cs = 10 \<and> throttled_at (uid, now_s) st0 cs = 5"
    using a t by simp
  show ?thesis
    using limiter_step_ok[OF assms(1,2), of st uid now_s] a t b c by blast
qed

theorem limiter_counts_then_compares_witness:
  "admitted_at (7, 1000) Map.empty
     (replicate 15 \<lparr>c_user_id = 7, c_user_type = ''NORMAL'', c_now_s = 1000, c_redis = RedisOK\<rparr>
      @ replicate 3 \<lparr>c_user_id = 8, c_user_type = ''VIP'', c_now_s = 1000, c_redis = IncrRaises\<rparr>) = 10
   \<and> throttled_at (7, 1000) Map.empty
     (replicate 15 \<lparr>c_user_id = 7, c_user_type = ''NORMAL'', c_now_s = 1000, c_redis = RedisOK\<rparr>
      @ replicate 3 \<lparr>c_user_id = 8, c_user_type = ''VIP'', c_now_s = 1000, c_redis = IncrRaises\<rparr>) = 5
   \<and> fst (rate_limit_check_by_user RedisOK (Map.empty((7, 1000) \<mapsto> \<lparr>cnt = 10, ttl = Some 2\<rparr>)) 7 ''NORMAL'' 1000)
       = (False, Some (10, 11))"
  using limiter_counts_then_compares[of "''NORMAL''"
     "replicate 15 \<lparr>c_user_id = 7, c_user_type = ''NORMAL'', c_now_s = 1000, c_redis = RedisOK\<rparr>
      @ replicate 3 \<lparr>c_user_id = 8, c_user_type = ''VIP'', c_now_s = 1000, c_redis = IncrRaises\<rparr>"
     7 1000 Map.empty "Map.empty((7, 1000) \<mapsto> \<lparr>cnt = 10, ttl = Some 2\<rparr>)"]
  by (simp add: dict_get_def API_KEY_QUOTA_def at_key_def counter_value_def)

section \<open>Key quota and revocation\<close>

lemma quota_table:
  "dict_get API_KEY_QUOTA (user_type_value t) 10 = (case t of NORMAL \<Rightarrow> 10 | VIP \<Rightarrow> 100 | ENTERPRISE \<Rightarrow> 0)"
  by (cases t) (simp_all add: dict_get_def API_KEY_QUOTA_def)

lemma create_api_key_quota:
  assumes "auth_type auth = ''jwt''"
  shows "(\<exists>e. create_api_key H now ck req auth (Some d) = Inl e \<and> QuotaExceeded e)
         \<longleftrightarrow> int (length (live_keys d (u_id (a_user auth))))
               \<ge> (case user_type (a_user auth) of NORMAL \<Rightarrow> 10 | VIP \<Rightarrow> 100 | ENTERPRISE \<Rightarrow> 0)"
proof (cases "int (length (live_keys d (u_id (a_user auth))))
               \<ge> (case user_type (a_user auth) of NORMAL \<Rightarrow> 10 | VIP \<Rightarrow> 100 | ENTERPRISE \<Rightarrow> 0)")
  case True
  then have "create_api_key H now ck req auth (Some d)
             = Inl (HTTPException 403 (API_key_quota_exceeded (user_type_value (user_type (a_user auth)))
                      (dict_get API_KEY_QUOTA (user_type_value (user_type (a_user auth))) 10)))"
    using assms by (simp add: create_api_key_def query_def live_keys_def quota_table Let_def)
  then show ?thesis using True by simp
next
  case False
  have "\<not> QuotaExceeded e" if "create_api_key H now ck req auth (Some d) = Inl e" for e
  proof (cases "key_expiry now req")
    case (Inl x)
    then have "key_expiry now req = Inl OverflowError"
      by (auto simp: key_expiry_def add_days_def Let_def split: option.splits if_splits)
    then show ?thesis using that False assms
      by (auto simp: create_api_key_def query_def live_keys_def quota_table Let_def)
  next
    case (Inr ex)
    then show ?thesis using that False assms
      by (auto simp: create_api_key_def query_def live_keys_def quota_table Let_def split: if_splits)
  qed
  then show ?thesis using False by blast
qed

lemma create_api_key_overflow:
  assumes "auth_type auth = ''jwt''"
    and "int (length (live_keys d (u_id (a_user auth))))
           < (case user_type (a_user auth) of NORMAL \<Rightarrow> 10 | VIP \<Rightarrow> 100 | ENTERPRISE \<Rightarrow> 0)"
    and "key_expiry now req = Inl e"
  shows "create_api_key H now ck req auth (Some d) = Inl e"
  using assms
  by (simp add: create_api_key_def query_def live_keys_def quota_table Let_def)

lemma create_api_key_collision:
  assumes "auth_type auth = ''jwt''"
    and "int (length (live_keys d (u_id (a_user auth))))
           < (case user_type (a_user auth) of NORMAL \<Rightarrow> 10 | VIP \<Rightarrow> 100 | ENTERPRISE \<Rightarrow> 0)"
    and "key_expiry now req = Inr ex"
    and "\<exists>k \<in> set (api_keys d). key_hash k = H ck"
  shows "create_api_key H now ck req auth (Some d) = Inl IntegrityError"
  using assms
  by (simp add: create_api_key_def query_def live_keys_def quota_table Let_def)

lemma create_api_key_succeeds:
  assumes "auth_type auth = ''jwt''"
    and "int (length (live_keys d (u_id (a_user auth))))
           < (case user_type (a_user auth) of NORMAL \<Rightarrow> 10 | VIP \<Rightarrow> 100 | ENTERPRISE \<Rightarrow> 0)"
    and "key_expiry now req = Inr ex"
    and "\<forall>k \<in> set (api_keys d). key_hash k \<noteq> H ck"
  shows "\<exists>out d'. create_api_key H now ck req auth (Some d) = Inr (out, d')
            \<and> api_keys d' = api_keys d @ [out_api out] \<and> users d' = users d \<and> orgs d' = orgs d
            \<and> out_key out = ck \<and> key_hash (out_api out) = H ck
            \<and> revoked (out_api out) = False \<and> k_user_id (out_api out) = u_id (a_user auth)
            \<and> expires_at (out_api out) = ex"
  using assms
  by (simp add: create_api_key_def query_def live_keys_def quota_table Let_def)

text \<open>The expiry the source computes: none, a \<open>datetime\<close>, or the overflow. Three
  million days from a day of the year 2026 lie beyond the year 9999.\<close>

lemma key_expiry_cases:
  "key_expiry now req =
     (case r_expires_days req of
        None \<Rightarrow> Inr None
      | Some n \<Rightarrow>
          if n = 0 then Inr None
          else if \<bar>n\<bar> \<le> 999999999 \<and> 0 \<le> now + n * 86400000000 \<and> now + n * 86400000000 \<le> datetime_max
          then Inr (Some (now + n * 86400000000))
          else Inl OverflowError)"
  by (auto simp: key_expiry_def add_days_def Let_def split: option.splits)

lemma key_expiry_overflow_example:
  "key_expiry 63900000000000000 \<lparr>r_name = None, r_expires_days = Some 3000000, r_scopes = None\<rparr>
     = Inl OverflowError
   \<and> key_expiry 63900000000000000 \<lparr>r_name = None, r_expires_days = Some 30, r_scopes = None\<rparr>
     = Inr (Some 63902592000000000)"
  by (simp add: key_expiry_cases datetime_max_def)

lemma enterprise_rejected:
  assumes "auth_type auth = ''jwt''" and "user_type (a_user auth) = ENTERPRISE"
  shows "create_api_key H now ck req auth (Some d)
         = Inl (HTTPException 403 (API_key_quota_exceeded ''ENTERPRISE'' 0))"
  using assms
  by (simp add: create_api_key_def query_def quota_table Let_def)

lemma revoke_api_key_ok:
  assumes "auth_type auth = ''jwt''" and "k \<in> set (api_keys d)" and "k_user_id k = u_id (a_user auth)"
  shows "revoke_api_key (k_id k) auth (Some d)
         = Inr (k_id k, d\<lparr>api_keys := map (mark_revoked (k_id k)) (api_keys d)\<rparr>)"
proof -
  let ?ks = "filter (\<lambda>x. k_id x = k_id k \<and> k_user_id x = u_id (a_user auth)) (api_keys d)"
  have "k \<in> set ?ks" using assms by simp
  then obtain a as where ks: "?ks = a # as" by (cases ?ks) auto
  then have "a \<in> set ?ks" by simp
  then have "k_id a = k_id k" by simp
  then show ?thesis using assms(1) ks
    by (simp add: revoke_api_key_def query_def mark_revoked_def[abs_def] Let_def)
qed

lemma mark_revoked_idem: "mark_revoked kid (mark_revoked kid k) = mark_revoked kid k"
  by (simp add: mark_revoked_def)

lemma mark_revoked_fields:
  "k_id (mark_revoked kid k) = k_id k" "k_user_id (mark_revoked kid k) = k_user_id k"
  "key_hash (mark_revoked kid k) = key_hash k"
  by (simp_all add: mark_revoked_def)

lemma live_after_revoke:
  "live_keys (d\<lparr>api_keys := map (mark_revoked kid) (api_keys d)\<rparr>) uid
   = map (mark_revoked kid) (filter (\<lambda>k. k_id k \<noteq> kid) (live_keys d uid))"
  by (auto simp: live_keys_def filter_map comp_def mark_revoked_def intro!: arg_cong[where f="map _"] filter_cong)


lemma standard_quota_scenario:
  assumes jwt: "auth_type auth = ''jwt''" and tier: "user_type (a_user auth) = NORMAL"
    and full: "length (live_keys d (u_id (a_user auth))) = 10"
    and k: "k \<in> set (live_keys d (u_id (a_user auth)))"
    and ex: "key_expiry now' req = Inr ex"
    and fresh: "\<forall>x \<in> set (api_keys d). key_hash x \<noteq> H ck"
  shows "(\<exists>e. create_api_key H now ck req auth (Some d) = Inl e \<and> QuotaExceeded e)
       \<and> revoke_api_key (k_id k) auth (Some d)
            = Inr (k_id k, d\<lparr>api_keys := map (mark_revoked (k_id k)) (api_keys d)\<rparr>)
       \<and> (\<exists>out d''. create_api_key H now' ck req auth
                        (Some (d\<lparr>api_keys := map (mark_revoked (k_id k)) (api_keys d)\<rparr>)) = Inr (out, d''))"
proof -
  let ?d' = "d\<lparr>api_keys := map (mark_revoked (k_id k)) (api_keys d)\<rparr>"
  have kin: "k \<in> set (api_keys d)" and own: "k_user_id k = u_id (a_user auth)"
    using k by (simp_all add: live_keys_def)
  have rv: "revoke_api_key (k_id k) auth (Some d) = Inr (k_id k, ?d')"
    by (rule revoke_api_key_ok[OF jwt kin own])
  have "length (live_keys ?d' (u_id (a_user auth)))
        = length (filter (\<lambda>x. k_id x \<noteq> k_id k) (live_keys d (u_id (a_user auth))))"
    by (simp add: live_after_revoke)
  also have "\<dots> < length (live_keys d (u_id (a_user auth)))"
    using k by (intro length_filter_less[of k]) simp_all
  finally have less: "int (length (live_keys ?d' (u_id (a_user auth)))) < 10"
    using full by simp
  have fresh': "\<forall>x \<in> set (api_keys ?d'). key_hash x \<noteq> H ck"
    using fresh by (simp add: mark_revoked_fields)
  have a: "\<exists>e. create_api_key H now ck req auth (Some d) = Inl e \<and> QuotaExceeded e"
    using create_api_key_quota[OF jwt, of H now ck req d] full tier by simp
  have b: "\<exists>out d''. create_api_key H now' ck req auth (Some ?d') = Inr (out, d'')"
    using create_api_key_succeeds[where auth = auth and d = ?d' and H = H and ck = ck
            and now = now' and req = req and ex = ex] jwt fresh' less tier ex
    by auto
  show ?thesis using a rv b by blast
qed

text \<open>
  Claim C1, as the code has it. The claim says that a user of the ENTERPRISE tier is never
  refused a new key for the number of live keys held. \<open>create_api_key\<close> reads the quota
  from \<open>API_KEY_QUOTA\<close>, where ENTERPRISE has 0, and compares \<open>existing_count >= quota\<close>
  without the test for 0 that \<open>rate_limit_check_by_user\<close> makes: whatever the database
  holds, the request of an ENTERPRISE user is refused with status 403, quota exceeded.
\<close>

theorem enterprise_key_creation_always_rejected:
  assumes "auth_type auth = ''jwt''" and "user_type (a_user auth) = ENTERPRISE"
  shows "create_api_key H now ck req auth (Some d)
           = Inl (HTTPException 403 (API_key_quota_exceeded ''ENTERPRISE'' 0))
       \<and> QuotaExceeded (HTTPException 403 (API_key_quota_exceeded ''ENTERPRISE'' 0))"
  using enterprise_rejected[OF assms] by simp

theorem enterprise_key_creation_always_rejected_witness:
  "create_api_key (\<lambda>s. ''h:'' @ s) 0 ''sk-00ff'' \<lparr>r_name = None, r_expires_days = None, r_scopes = None\<rparr>
     \<lparr>a_user = \<lparr>u_id = 1, u_org_id = 1, username = ''admin'', hashed_password = ''x'',
                 is_admin = True, user_type = ENTERPRISE\<rparr>,
      auth_type = ''jwt'', api_obj = None, token_payload = None\<rparr>
     (Some \<lparr>orgs = [\<lparr>o_id = 1, o_name = ''demo_org''\<rparr>],
            users = [\<lparr>u_id = 1, u_org_id = 1, username = ''admin'', hashed_password = ''x'',
                      is_admin = True, user_type = ENTERPRISE\<rparr>],
            api_keys = []\<rparr>)
   = Inl (HTTPException 403 (API_key_quota_exceeded ''ENTERPRISE'' 0))"
  using enterprise_key_creation_always_rejected[of
     "\<lparr>a_user = \<lparr>u_id = 1, u_org_id = 1, username = ''admin'', hashed_password = ''x'',
                 is_admin = True, user_type = ENTERPRISE\<rparr>,
      auth_type = ''jwt'', api_obj = None, token_payload = None\<rparr>"
     "\<lambda>s. ''h:'' @ s" 0 "''sk-00ff''" "\<lparr>r_name = None, r_expires_days = None, r_scopes = None\<rparr>"
     "\<lparr>orgs = [\<lparr>o_id = 1, o_name = ''demo_org''\<rparr>],
            users = [\<lparr>u_id = 1, u_org_id = 1, username = ''admin'', hashed_password = ''x'',
                      is_admin = True, user_type = ENTERPRISE\<rparr>],
            api_keys = []\<rparr>"]
  by simp

text \<open>
  Claim C6, as the code has it. For a caller authenticated by token, key creation is
  refused with quota exceeded exactly when the caller's live (non-revoked) keys number at
  least the quota of the tier, and nothing is stored then. Below the quota the outcome
  is one of three: the expiry overflows and the request fails with \<open>OverflowError\<close>; or
  the hash of the new key is already in the table and the commit fails; or the key is
  created, appended to the table, live, owned by the caller, with the expiry computed.
  A NORMAL caller holding 10 live keys is refused, the revocation of one of them succeeds,
  and after it the creation succeeds. The quotas are 10 for NORMAL, 100 for VIP and 0 for
  ENTERPRISE, so the claim's rule holds for the first two tiers and fails for ENTERPRISE,
  whose quota the spec gives as unbounded.
\<close>

theorem key_creation_quota_check:
  assumes "auth_type auth = ''jwt''"
  shows "((\<exists>e. create_api_key H now ck req auth (Some d) = Inl e \<and> QuotaExceeded e)
           \<longleftrightarrow> int (length (live_keys d (u_id (a_user auth))))
               \<ge> (case user_type (a_user auth) of NORMAL \<Rightarrow> 10 | VIP \<Rightarrow> 100 | ENTERPRISE \<Rightarrow> 0))
       \<and> (int (length (live_keys d (u_id (a_user auth))))
               < (case user_type (a_user auth) of NORMAL \<Rightarrow> 10 | VIP \<Rightarrow> 100 | ENTERPRISE \<Rightarrow> 0)
           \<longrightarrow> (\<forall>e. key_expiry now req = Inl e
                      \<longrightarrow> e = OverflowError \<and> create_api_key H now ck req auth (Some d) = Inl e)
               \<and> (\<forall>ex. key_expiry now req = Inr ex \<and> (\<exists>k \<in> set (api_keys d). key_hash k = H ck)
                      \<longrightarrow> create_api_key H now ck req auth (Some d) = Inl IntegrityError)
               \<and> (\<forall>ex. key_expiry now req = Inr ex \<and> (\<forall>k \<in> set (api_keys d). key_hash k \<noteq> H ck)
                      \<longrightarrow> (\<exists>out d'. create_api_key H now ck req auth (Some d) = Inr (out, d')
                             \<and> api_keys d' = api_keys d @ [out_api out]
                             \<and> users d' = users d \<and> orgs d' = orgs d
                             \<and> out_key out = ck \<and> key_hash (out_api out) = H ck
                             \<and> revoked (out_api out) = False
                             \<and> k_user_id (out_api out) = u_id (a_user auth)
                             \<and> expires_at (out_api out) = ex)))
       \<and> (user_type (a_user auth) = NORMAL \<and> length (live_keys d (u_id (a_user auth))) = 10
           \<longrightarrow> (\<exists>e. create_api_key H now ck req auth (Some d) = Inl e \<and> QuotaExceeded e)
               \<and> (\<forall>k \<in> set (live_keys d (u_id (a_user auth))).
                     revoke_api_key (k_id k) auth (Some d)
                       = Inr (k_id k, d\<lparr>api_keys := map (mark_revoked (k_id k)) (api_keys d)\<rparr>)
                     \<and> (\<forall>ex. key_expiry now req = Inr ex \<and> (\<forall>x \<in> set (api_keys d). key_hash x \<noteq> H ck)
                           \<longrightarrow> (\<exists>out d''. create_api_key H now ck req auth
                                   (Some (d\<lparr>api_keys := map (mark_revoked (k_id k)) (api_keys d)\<rparr>))
                                   = Inr (out, d'')))))"
proof -
  have a: "(\<exists>e. create_api_key H now ck req auth (Some d) = Inl e \<and> QuotaExceeded e)
           \<longleftrightarrow> int (length (live_keys d (u_id (a_user auth))))
               \<ge> (case user_type (a_user auth) of NORMAL \<Rightarrow> 10 | VIP \<Rightarrow> 100 | ENTERPRISE \<Rightarrow> 0)"
    by (rule create_api_key_quota[OF assms])
  have b: "int (length (live_keys d (u_id (a_user auth))))
               < (case user_type (a_user auth) of NORMAL \<Rightarrow> 10 | VIP \<Rightarrow> 100 | ENTERPRISE \<Rightarrow> 0)
           \<longrightarrow> (\<forall>e. key_expiry now req = Inl e
                      \<longrightarrow> e = OverflowError \<and> create_api_key H now ck req auth (Some d) = Inl e)
               \<and> (\<forall>ex. key_expiry now req = Inr ex \<and> (\<exists>k \<in> set (api_keys d). key_hash k = H ck)
                      \<longrightarrow> create_api_key H now ck req auth (Some d) = Inl IntegrityError)
               \<and> (\<forall>ex. key_expiry now req = Inr ex \<and> (\<forall>k \<in> set (api_keys d). key_hash k \<noteq> H ck)
                      \<longrightarrow> (\<exists>out d'. create_api_key H now ck req auth (Some d) = Inr (out, d')
                             \<and> api_keys d' = api_keys d @ [out_api out]
                             \<and> users d' = users d \<and> orgs d' = orgs d
                             \<and> out_key out = ck \<and> key_hash (out_api out) = H ck
                             \<and> revoked (out_api out) = False
                             \<and> k_user_id (out_api out) = u_id (a_user auth)
                             \<and> expires_at (out_api out) = ex))"
  proof
    assume lt: "int (length (live_keys d (u_id (a_user auth))))
               < (case user_type (a_user auth) of NORMAL \<Rightarrow> 10 | VIP \<Rightarrow> 100 | ENTERPRISE \<Rightarrow> 0)"
    have o: "\<forall>e. key_expiry now req = Inl e
                \<longrightarrow> e = OverflowError \<and> create_api_key H now ck req auth (Some d) = Inl e"
    proof (intro allI impI)
      fix e assume e: "key_expiry now req = Inl e"
      then have "e = OverflowError"
        by (auto simp: key_expiry_cases split: option.splits if_splits)
      then show "e = OverflowError \<and> create_api_key H now ck req auth (Some d) = Inl e"
        using create_api_key_overflow[OF assms lt e] by simp
    qed
    have c: "\<forall>ex. key_expiry now req = Inr ex \<and> (\<exists>k \<in> set (api_keys d). key_hash k = H ck)
                \<longrightarrow> create_api_key H now ck req auth (Some d) = Inl IntegrityError"
      using create_api_key_collision[OF assms lt] by blast
    have s: "\<forall>ex. key_expiry now req = Inr ex \<and> (\<forall>k \<in> set (api_keys d). key_hash k \<noteq> H ck)
                \<longrightarrow> (\<exists>out d'. create_api_key H now ck req auth (Some d) = Inr (out, d')
                             \<and> api_keys d' = api_keys d @ [out_api out]
                             \<and> users d' = users d \<and> orgs d' = orgs d
                             \<and> out_key out = ck \<and> key_hash (out_api out) = H ck
                             \<and> revoked (out_api out) = False
                             \<and> k_user_id (out_api out) = u_id (a_user auth)
                             \<and> expires_at (out_api out) = ex)"
      using create_api_key_succeeds[OF assms lt] by blast
    show "(\<forall>e. key_expiry now req = Inl e
                      \<longrightarrow> e = OverflowError \<and> create_api_key H now ck req auth (Some d) = Inl e)
               \<and> (\<forall>ex. key_expiry now req = Inr ex \<and> (\<exists>k \<in> set (api_keys d). key_hash k = H ck)
                      \<longrightarrow> create_api_key H now ck req auth (Some d) = Inl IntegrityError)
               \<and> (\<forall>ex. key_expiry now req = Inr ex \<and> (\<forall>k \<in> set (api_keys d). key_hash k \<noteq> H ck)
                      \<longrightarrow> (\<exists>out d'. create_api_key H now ck req auth (Some d) = Inr (out, d')
                             \<and> api_keys d' = api_keys d @ [out_api out]
                             \<and> users d' = users d \<and> orgs d' = orgs d
                             \<and> out_key out = ck \<and> key_hash (out_api out) = H ck
                             \<and> revoked (out_api out) = False
                             \<and> k_user_id (out_api out) = u_id (a_user auth)
                             \<and> expires_at (out_api out) = ex))"
      using o c s by blast
  qed
  have c: "user_type (a_user auth) = NORMAL \<and> length (live_keys d (u_id (a_user auth))) = 10
           \<longrightarrow> (\<exists>e. create_api_key H now ck req auth (Some d) = Inl e \<and> QuotaExceeded e)
               \<and> (\<forall>k \<in> set (live_keys d (u_id (a_user auth))).
                     revoke_api_key (k_id k) auth (Some d)
                       = Inr (k_id k, d\<lparr>api_keys := map (mark_revoked (k_id k)) (api_keys d)\<rparr>)
                     \<and> (\<forall>ex. key_expiry now req = Inr ex \<and> (\<forall>x \<in> set (api_keys d). key_hash x \<noteq> H ck)
                           \<longrightarrow> (\<exists>out d''. create_api_key H now ck req auth
                                   (Some (d\<lparr>api_keys := map (mark_revoked (k_id k)) (api_keys d)\<rparr>))
                                   = Inr (out, d''))))"
  proof (intro impI conjI ballI allI)
    assume h: "user_type (a_user auth) = NORMAL \<and> length (live_keys d (u_id (a_user auth))) = 10"
    show "\<exists>e. create_api_key H now ck req auth (Some d) = Inl e \<and> QuotaExceeded e"
      using a h by simp
  next
    fix k
    assume h: "user_type (a_user auth) = NORMAL \<and> length (live_keys d (u_id (a_user auth))) = 10"
      and k: "k \<in> set (live_keys d (u_id (a_user auth)))"
    have "k \<in> set (api_keys d)" "k_user_id k = u_id (a_user auth)"
      using k by (simp_all add: live_keys_def)
    then show "revoke_api_key (k_id k) auth (Some d)
                 = Inr (k_id k, d\<lparr>api_keys := map (mark_revoked (k_id k)) (api_keys d)\<rparr>)"
      using revoke_api_key_ok[OF assms] by blast
  next
    fix k ex
    assume h: "user_type (a_user auth) = NORMAL \<and> length (live_keys d (u_id (a_user auth))) = 10"
      and k: "k \<in> set (live_keys d (u_id (a_user auth)))"
      and e: "key_expiry now req = Inr ex \<and> (\<forall>x \<in> set (api_keys d). key_hash x \<noteq> H ck)"
    show "\<exists>out d''. create_api_key H now ck req auth
                       (Some (d\<lparr>api_keys := map (mark_revoked (k_id k)) (api_keys d)\<rparr>)) = Inr (out, d'')"
      using standard_quota_scenario[where auth = auth and d = d and k = k and now' = now
              and now = now and req = req and ex = ex and H = H and ck = ck] assms h k e
      by blast
  qed
  show ?thesis using a b c by blast
qed

theorem key_creation_quota_check_witness:
  "(\<exists>e. create_api_key (\<lambda>s. ''h:'' @ s) 63900000000000000 ''sk-11ee''
          \<lparr>r_name = None, r_expires_days = None, r_scopes = None\<rparr>
     \<lparr>a_user = \<lparr>u_id = 3, u_org_id = 3, username = ''user_enterprise_test'', hashed_password = ''x'',
                 is_admin = False, user_type = ENTERPRISE\<rparr>,
      auth_type = ''jwt'', api_obj = None, token_payload = None\<rparr>
     (Some \<lparr>orgs = [], users = [], api_keys = []\<rparr>) = Inl e \<and> QuotaExceeded e)"
  using key_creation_quota_check[where auth =
     "\<lparr>a_user = \<lparr>u_id = 3, u_org_id = 3, username = ''user_enterprise_test'', hashed_password = ''x'',
                 is_admin = False, user_type = ENTERPRISE\<rparr>,
      auth_type = ''jwt'', api_obj = None, token_payload = None\<rparr>"
     and H = "\<lambda>s. ''h:'' @ s" and now = 63900000000000000 and ck = "''sk-11ee''"
     and req = "\<lparr>r_name = None, r_expires_days = None, r_scopes = None\<rparr>"
     and d = "\<lparr>orgs = [], users = [], api_keys = []\<rparr>"]
  by (simp add: live_keys_def)

text \<open>Below the quota, an expiry beyond the year 9999 fails the request and stores
  nothing; thirty days are stored.\<close>

lemma create_api_key_overflow_example:
  "create_api_key (\<lambda>s. ''h:'' @ s) 63900000000000000 ''sk-22dd''
     \<lparr>r_name = None, r_expires_days = Some 3000000, r_scopes = None\<rparr>
     \<lparr>a_user = \<lparr>u_id = 2, u_org_id = 1, username = ''bob'', hashed_password = ''x'',
                 is_admin = False, user_type = NORMAL\<rparr>,
      auth_type = ''jwt'', api_obj = None, token_payload = None\<rparr>
     (Some \<lparr>orgs = [], users = [], api_keys = []\<rparr>) = Inl OverflowError"
  by (simp add: create_api_key_def query_def key_expiry_cases datetime_max_def
        dict_get_def API_KEY_QUOTA_def Let_def)

text \<open>
  Claim C10. Revoking a key that the caller owns succeeds, whether or not the key is
  already revoked, and revoking it again succeeds with the same response and leaves the
  database as the first revocation left it; afterwards the key is revoked, and a key that
  was revoked before is left exactly as it was.
\<close>

theorem revoke_api_key_idempotent:
  assumes "auth_type auth = ''jwt''" and "k \<in> set (api_keys d)" and "k_user_id k = u_id (a_user auth)"
  shows "\<exists>d'. revoke_api_key (k_id k) auth (Some d) = Inr (k_id k, d')
          \<and> revoke_api_key (k_id k) auth (Some d') = Inr (k_id k, d')
          \<and> (\<forall>x \<in> set (api_keys d'). k_id x = k_id k \<longrightarrow> revoked x)
          \<and> ((\<forall>x \<in> set (api_keys d). k_id x = k_id k \<longrightarrow> revoked x) \<longrightarrow> d' = d)"
proof -
  let ?d' = "d\<lparr>api_keys := map (mark_revoked (k_id k)) (api_keys d)\<rparr>"
  have one: "revoke_api_key (k_id k) auth (Some d) = Inr (k_id k, ?d')"
    by (rule revoke_api_key_ok[OF assms])
  have kin: "mark_revoked (k_id k) k \<in> set (api_keys ?d')"
    using assms(2) by simp
  have two: "revoke_api_key (k_id k) auth (Some ?d') = Inr (k_id k, ?d')"
    using revoke_api_key_ok[OF assms(1) kin] assms(3)
    by (simp add: mark_revoked_fields mark_revoked_idem comp_def)
  have three: "\<forall>x \<in> set (api_keys ?d'). k_id x = k_id k \<longrightarrow> revoked x"
    by (auto simp: mark_revoked_def)
  have four: "(\<forall>x \<in> set (api_keys d). k_id x = k_id k \<longrightarrow> revoked x) \<longrightarrow> ?d' = d"
  proof
    assume a: "\<forall>x \<in> set (api_keys d). k_id x = k_id k \<longrightarrow> revoked x"
    have "map (mark_revoked (k_id k)) (api_keys d) = api_keys d"
      using a by (intro map_idI) (auto simp: mark_revoked_def)
    then show "?d' = d" by simp
  qed
  show ?thesis using one two three four by blast
qed

theorem revoke_api_key_idempotent_witness:
  "\<exists>d'. revoke_api_key 5
       \<lparr>a_user = \<lparr>u_id = 2, u_org_id = 1, username = ''bob'', hashed_password = ''x'',
                   is_admin = False, user_type = NORMAL\<rparr>,
        auth_type = ''jwt'', api_obj = None, token_payload = None\<rparr>
       (Some \<lparr>orgs = [], users = [],
              api_keys = [\<lparr>k_id = 5, k_org_id = 1, k_user_id = 2, key_hash = ''h'', key_preview = ''p'',
                            k_name = None, scopes = Some ''generate:text'', revoked = True,
                            created_at = 0, expires_at = None\<rparr>]\<rparr>) = Inr (5, d')
     \<and> d' = \<lparr>orgs = [], users = [],
              api_keys = [\<lparr>k_id = 5, k_org_id = 1, k_user_id = 2, key_hash = ''h'', key_preview = ''p'',
                            k_name = None, scopes = Some ''generate:text'', revoked = True,
                            created_at = 0, expires_at = None\<rparr>]\<rparr>"
  using revoke_api_key_idempotent[of
       "\<lparr>a_user = \<lparr>u_id = 2, u_org_id = 1, username = ''bob'', hashed_password = ''x'',
                   is_admin = False, user_type = NORMAL\<rparr>,
        auth_type = ''jwt'', api_obj = None, token_payload = None\<rparr>"
       "\<lparr>k_id = 5, k_org_id = 1, k_user_id = 2, key_hash = ''h'', key_preview = ''p'',
                            k_name = None, scopes = Some ''generate:text'', revoked = True,
                            created_at = 0, expires_at = None\<rparr>"
       "\<lparr>orgs = [], users = [],
              api_keys = [\<lparr>k_id = 5, k_org_id = 1, k_user_id = 2, key_hash = ''h'', key_preview = ''p'',
                            k_name = None, scopes = Some ''generate:text'', revoked = True,
                            created_at = 0, expires_at = None\<rparr>]\<rparr>"]
  by simp

section \<open>Resolving the caller\<close>

lemma first_filter: "first (filter P xs) = find P xs"
  by (induction xs) auto

lemma api_key_auth_find:
  "api_key_auth H now x (Some d) =
     (case find (\<lambda>k. key_hash k = H x \<and> \<not> revoked k) (api_keys d) of
        None \<Rightarrow> Inl (HTTPException 401 Invalid_API_key)
      | Some api \<Rightarrow>
          if (case expires_at api of None \<Rightarrow> False | Some t \<Rightarrow> t < now)
          then Inl (HTTPException 401 API_key_expired)
          else (case find (\<lambda>u. u_id u = k_user_id api) (users d) of
                  None \<Rightarrow> Inl (HTTPException 401 User_not_found)
                | Some user \<Rightarrow> Inr \<lparr>a_user = user, auth_type = ''api_key'',
                                     api_obj = Some api, token_payload = None\<rparr>))"
  by (auto simp: api_key_auth_def query_def first_filter Let_def split: option.splits)

lemma api_key_auth_errors:
  "api_key_auth H now x (Some d) = Inl e \<Longrightarrow> Unauthenticated e"
  by (auto simp: api_key_auth_find split: option.splits if_splits)

lemma unique_hash:
  assumes "distinct (map key_hash ks)" and "a \<in> set ks" and "b \<in> set ks" and "key_hash a = key_hash b"
  shows "a = b"
  using assms by (meson distinct_map inj_onD)

lemma api_key_auth_iff:
  assumes uniq: "distinct (map key_hash (api_keys d))"
  shows "(\<exists>e. api_key_auth H now x (Some d) = Inl e \<and> Unauthenticated e) \<longleftrightarrow>
         (\<not> (\<exists>k \<in> set (api_keys d). key_hash k = H x)
          \<or> (\<exists>k \<in> set (api_keys d). key_hash k = H x \<and>
                (revoked k \<or> (\<exists>t. expires_at k = Some t \<and> t < now)
                 \<or> \<not> (\<exists>u \<in> set (users d). u_id u = k_user_id k))))"
proof (cases "find (\<lambda>k. key_hash k = H x \<and> \<not> revoked k) (api_keys d)")
  case None
  then have "\<forall>k \<in> set (api_keys d). key_hash k = H x \<longrightarrow> revoked k"
    by (auto simp: find_None_iff)
  moreover have "api_key_auth H now x (Some d) = Inl (HTTPException 401 Invalid_API_key)"
    using None by (simp add: api_key_auth_find)
  ultimately show ?thesis by auto
next
  case (Some api)
  then have api: "api \<in> set (api_keys d)" "key_hash api = H x" "\<not> revoked api"
    by (auto simp: find_Some_iff)
  have only: "\<And>k. k \<in> set (api_keys d) \<Longrightarrow> key_hash k = H x \<Longrightarrow> k = api"
    using unique_hash[OF uniq _ api(1)] api(2) by simp
  have rhs: "(\<not> (\<exists>k \<in> set (api_keys d). key_hash k = H x)
          \<or> (\<exists>k \<in> set (api_keys d). key_hash k = H x \<and>
                (revoked k \<or> (\<exists>t. expires_at k = Some t \<and> t < now)
                 \<or> \<not> (\<exists>u \<in> set (users d). u_id u = k_user_id k))))
        \<longleftrightarrow> ((\<exists>t. expires_at api = Some t \<and> t < now) \<or> \<not> (\<exists>u \<in> set (users d). u_id u = k_user_id api))"
    using api only by blast
  have lhs: "(\<exists>e. api_key_auth H now x (Some d) = Inl e \<and> Unauthenticated e)
        \<longleftrightarrow> ((\<exists>t. expires_at api = Some t \<and> t < now) \<or> \<not> (\<exists>u \<in> set (users d). u_id u = k_user_id api))"
  proof -
    have e: "(case expires_at api of None \<Rightarrow> False | Some t \<Rightarrow> t < now)
              \<longleftrightarrow> (\<exists>t. expires_at api = Some t \<and> t < now)"
      by (cases "expires_at api") auto
    have u: "find (\<lambda>u. u_id u = k_user_id api) (users d) = None
              \<longleftrightarrow> \<not> (\<exists>u \<in> set (users d). u_id u = k_user_id api)"
      by (auto simp: find_None_iff)
    show ?thesis
    proof (cases "find (\<lambda>u. u_id u = k_user_id api) (users d)")
      case None
      then show ?thesis using Some e u by (simp add: api_key_auth_find)
    next
      case (Some usr)
      then have "\<exists>u \<in> set (users d). u_id u = k_user_id api" using u by simp
      then show ?thesis using \<open>find (\<lambda>k. key_hash k = H x \<and> \<not> revoked k) (api_keys d) = Some api\<close> Some e
        by (simp add: api_key_auth_find)
    qed
  qed
  show ?thesis using lhs rhs by simp
qed

lemma api_key_auth_ok:
  assumes uniq: "distinct (map key_hash (api_keys d))"
    and k: "k \<in> set (api_keys d)" "key_hash k = H x" "\<not> revoked k"
    and live: "\<not> (\<exists>t. expires_at k = Some t \<and> t < now)"
    and owner: "\<exists>u \<in> set (users d). u_id u = k_user_id k"
  shows "\<exists>u. api_key_auth H now x (Some d)
               = Inr \<lparr>a_user = u, auth_type = ''api_key'', api_obj = Some k, token_payload = None\<rparr>
             \<and> u \<in> set (users d) \<and> u_id u = k_user_id k"
proof -
  obtain api where f: "find (\<lambda>k. key_hash k = H x \<and> \<not> revoked k) (api_keys d) = Some api"
    using k by (cases "find (\<lambda>k. key_hash k = H x \<and> \<not> revoked k) (api_keys d)") (auto simp: find_None_iff)
  then have "api \<in> set (api_keys d)" "key_hash api = H x"
    by (auto simp: find_Some_iff)
  then have eq: "api = k" using unique_hash[OF uniq _ k(1)] k(2) by simp
  obtain u where u: "find (\<lambda>u. u_id u = k_user_id k) (users d) = Some u"
    using owner by (cases "find (\<lambda>u. u_id u = k_user_id k) (users d)") (auto simp: find_None_iff)
  then have "u \<in> set (users d)" "u_id u = k_user_id k"
    by (auto simp: find_Some_iff)
  then show ?thesis using f eq u live
    by (auto simp: api_key_auth_find split: option.splits)
qed

lemma revoked_for_good_auth:
  assumes "revoked_for_good (H x) d"
  shows "api_key_auth H now x (Some d) = Inl (HTTPException 401 Invalid_API_key)"
proof -
  have "find (\<lambda>k. key_hash k = H x \<and> \<not> revoked k) (api_keys d) = None"
    using assms by (auto simp: revoked_for_good_def find_None_iff)
  then show ?thesis by (simp add: api_key_auth_find)
qed

lemma create_api_key_effect:
  assumes "create_api_key H now ck req auth (Some d) = Inr (out, d')"
  shows "api_keys d' = api_keys d @ [out_api out] \<and> key_hash (out_api out) = H ck
         \<and> (\<forall>k \<in> set (api_keys d). key_hash k \<noteq> H ck)"
  using assms
  by (auto simp: create_api_key_def query_def Let_def split: if_splits sum.splits)

lemma revoke_api_key_effect:
  assumes "revoke_api_key kid auth (Some d) = Inr (r, d')"
  shows "\<exists>i. api_keys d' = map (mark_revoked i) (api_keys d)"
  using assms
  by (auto simp: revoke_api_key_def query_def Let_def mark_revoked_def[abs_def]
           split: if_splits option.splits)

lemma signup_effect:
  "snd (signup a b c e f (Some d)) = Some d' \<Longrightarrow> api_keys d' = api_keys d"
  by (auto simp: signup_def query_def Let_def split: option.splits if_splits)

lemma revoked_for_good_append:
  "revoked_for_good h d \<Longrightarrow> api_keys d' = api_keys d @ [a] \<Longrightarrow> key_hash a \<noteq> h \<Longrightarrow> revoked_for_good h d'"
  by (auto simp: revoked_for_good_def)

lemma mark_revoked_keeps: "revoked k \<Longrightarrow> revoked (mark_revoked i k)"
  by (simp add: mark_revoked_def)

lemma revoked_for_good_mark:
  assumes "revoked_for_good h d" and d': "api_keys d' = map (mark_revoked i) (api_keys d)"
  shows "revoked_for_good h d'"
proof -
  from assms(1) obtain k where k: "k \<in> set (api_keys d)" "key_hash k = h"
    by (auto simp: revoked_for_good_def)
  then have "mark_revoked i k \<in> set (api_keys d')" "key_hash (mark_revoked i k) = h"
    by (simp_all add: d' mark_revoked_fields)
  then have ex: "\<exists>x \<in> set (api_keys d'). key_hash x = h" by blast
  have "revoked x" if "x \<in> set (api_keys d')" "key_hash x = h" for x
  proof -
    from that(1) obtain y where y: "y \<in> set (api_keys d)" "x = mark_revoked i y"
      by (auto simp: d')
    then have "key_hash y = h" using that(2) by (simp add: mark_revoked_fields)
    then have "revoked y" using assms(1) y(1) by (simp add: revoked_for_good_def)
    then show ?thesis using y(2) by (simp add: mark_revoked_keeps)
  qed
  then show ?thesis using ex by (simp add: revoked_for_good_def)
qed

lemma revoked_for_good_serve:
  assumes "revoked_for_good h d"
  shows "revoked_for_good h (serve H d r)"
proof (cases r)
  case (Signup_request a b c e f)
  show ?thesis
  proof (cases "snd (signup a b c e f (Some d))")
    case None
    then show ?thesis using assms Signup_request by simp
  next
    case (Some d')
    then have "api_keys d' = api_keys d" by (rule signup_effect)
    then show ?thesis using assms Signup_request Some by (simp add: revoked_for_good_def)
  qed
next
  case (Create_request jd now ck req x a)
  show ?thesis
  proof (cases "create_api_key_request H jd now ck req x a (Some d)")
    case (Inl e)
    then show ?thesis using assms Create_request by simp
  next
    case (Inr p)
    obtain out d' where p: "p = (out, d')" by (cases p)
    from Inr p obtain auth where "create_api_key H now ck req auth (Some d) = Inr (out, d')"
      by (auto simp: create_api_key_request_def split: sum.splits)
    from create_api_key_effect[OF this]
    have e: "api_keys d' = api_keys d @ [out_api out]" "key_hash (out_api out) = H ck"
      "\<forall>k \<in> set (api_keys d). key_hash k \<noteq> H ck" by auto
    have "key_hash (out_api out) \<noteq> h" using e(2,3) assms by (auto simp: revoked_for_good_def)
    then have "revoked_for_good h d'" using revoked_for_good_append[OF assms e(1)] by simp
    then show ?thesis using Create_request Inr p by simp
  qed
next
  case (Revoke_request jd now kid x a)
  show ?thesis
  proof (cases "revoke_api_key_request H jd now kid x a (Some d)")
    case (Inl e)
    then show ?thesis using assms Revoke_request by simp
  next
    case (Inr p)
    obtain r' d' where p: "p = (r', d')" by (cases p)
    from Inr p obtain auth where "revoke_api_key kid auth (Some d) = Inr (r', d')"
      by (auto simp: revoke_api_key_request_def split: sum.splits)
    from revoke_api_key_effect[OF this] obtain i where "api_keys d' = map (mark_revoked i) (api_keys d)" by blast
    then have "revoked_for_good h d'" by (rule revoked_for_good_mark[OF assms])
    then show ?thesis using Revoke_request Inr p by simp
  qed
qed

lemma revoked_for_good_serve_all:
  "revoked_for_good h d \<Longrightarrow> revoked_for_good h (serve_all H d rs)"
  unfolding serve_all_def
  by (induction rs arbitrary: d) (simp_all add: revoked_for_good_serve)


lemma key_path_taken:
  "x \<noteq> [] \<Longrightarrow> get_current_user H jd now (Some x) authz db = api_key_auth H now x db"
  by (simp add: get_current_user_def)

text \<open>
  Claim C4. A request that carries a non-empty API key is resolved by the key alone. With
  key hashes unique in the table (the column is \<open>unique=True\<close>), the resolution fails as
  Unauthenticated exactly when no stored key has the hash of the secret, or the key with
  that hash is revoked, or its expiry is set and earlier than now, or no user has the id
  of its owner; it fails in no other way; and otherwise it returns the owner together
  with the key row, whose \<open>scopes\<close> the later check reads. If the key with that hash is
  revoked, the resolution fails with 401 in every database reached by serving any
  requests (signup, key creation, key revocation), at any time and with any other header.
\<close>

theorem api_key_resolution:
  assumes "x \<noteq> []" and "distinct (map key_hash (api_keys d))"
  shows "((\<exists>e. get_current_user H jd now (Some x) authz (Some d) = Inl e \<and> Unauthenticated e) \<longleftrightarrow>
            (\<not> (\<exists>k \<in> set (api_keys d). key_hash k = H x)
             \<or> (\<exists>k \<in> set (api_keys d). key_hash k = H x \<and>
                   (revoked k \<or> (\<exists>t. expires_at k = Some t \<and> t < now)
                    \<or> \<not> (\<exists>u \<in> set (users d). u_id u = k_user_id k)))))
       \<and> (\<forall>e. get_current_user H jd now (Some x) authz (Some d) = Inl e \<longrightarrow> Unauthenticated e)
       \<and> (\<forall>k \<in> set (api_keys d).
             key_hash k = H x \<and> \<not> revoked k \<and> \<not> (\<exists>t. expires_at k = Some t \<and> t < now)
             \<and> (\<exists>u \<in> set (users d). u_id u = k_user_id k)
             \<longrightarrow> (\<exists>u. get_current_user H jd now (Some x) authz (Some d)
                         = Inr \<lparr>a_user = u, auth_type = ''api_key'', api_obj = Some k, token_payload = None\<rparr>
                       \<and> u \<in> set (users d) \<and> u_id u = k_user_id k))
       \<and> (\<forall>k \<in> set (api_keys d).
             key_hash k = H x \<and> revoked k
             \<longrightarrow> (\<forall>rs jd' now' authz'.
                    get_current_user H jd' now' (Some x) authz' (Some (serve_all H d rs))
                      = Inl (HTTPException 401 Invalid_API_key)))"
proof -
  note kp = key_path_taken[OF assms(1)]
  have a: "(\<exists>e. get_current_user H jd now (Some x) authz (Some d) = Inl e \<and> Unauthenticated e) \<longleftrightarrow>
            (\<not> (\<exists>k \<in> set (api_keys d). key_hash k = H x)
             \<or> (\<exists>k \<in> set (api_keys d). key_hash k = H x \<and>
                   (revoked k \<or> (\<exists>t. expires_at k = Some t \<and> t < now)
                    \<or> \<not> (\<exists>u \<in> set (users d). u_id u = k_user_id k))))"
    unfolding kp by (rule api_key_auth_iff[OF assms(2)])
  have b: "\<forall>e. get_current_user H jd now (Some x) authz (Some d) = Inl e \<longrightarrow> Unauthenticated e"
    unfolding kp using api_key_auth_errors by blast
  have c: "\<forall>k \<in> set (api_keys d).
             key_hash k = H x \<and> \<not> revoked k \<and> \<not> (\<exists>t. expires_at k = Some t \<and> t < now)
             \<and> (\<exists>u \<in> set (users d). u_id u = k_user_id k)
             \<longrightarrow> (\<exists>u. get_current_user H jd now (Some x) authz (Some d)
                         = Inr \<lparr>a_user = u, auth_type = ''api_key'', api_obj = Some k, token_payload = None\<rparr>
                       \<and> u \<in> set (users d) \<and> u_id u = k_user_id k)"
    unfolding kp using api_key_auth_ok[OF assms(2)] by blast
  have d: "\<forall>k \<in> set (api_keys d).
             key_hash k = H x \<and> revoked k
             \<longrightarrow> (\<forall>rs jd' now' authz'.
                    get_current_user H jd' now' (Some x) authz' (Some (serve_all H d rs))
                      = Inl (HTTPException 401 Invalid_API_key))"
  proof (intro ballI impI allI)
    fix k rs jd' now' authz'
    assume k: "k \<in> set (api_keys d)" and kk: "key_hash k = H x \<and> revoked k"
    have "revoked_for_good (H x) d"
      unfolding revoked_for_good_def
      using k kk unique_hash[OF assms(2) _ k] by metis
    then have "revoked_for_good (H x) (serve_all H d rs)"
      by (rule revoked_for_good_serve_all)
    then show "get_current_user H jd' now' (Some x) authz' (Some (serve_all H d rs))
                 = Inl (HTTPException 401 Invalid_API_key)"
      by (simp add: key_path_taken[OF assms(1)] revoked_for_good_auth)
  qed
  show ?thesis using a b c d by blast
qed

lemma lower_no_space: "lower s = ''bearer'' \<Longrightarrow> CHR '' '' \<notin> set s"
proof
  assume l: "lower s = ''bearer''" and m: "CHR '' '' \<in> set s"
  have "lower_char CHR '' '' = CHR '' ''" by (simp add: lower_char_def)
  then have "CHR '' '' \<in> set (lower s)" using m by (force simp: lower_def)
  then show False using l by simp
qed

lemma partition_space_scheme:
  "CHR '' '' \<notin> set scheme \<Longrightarrow> partition_space (scheme @ CHR '' '' # token) = (scheme, token)"
  by (induction scheme) (auto simp: partition_space_def)

lemma bearer_auth_decoded:
  assumes "lower scheme = ''bearer''" and "jwt_decode token = Inr p"
    and "sub p = Some uid" and "org p = Some oid"
  shows "bearer_auth jwt_decode (scheme @ '' '' @ token) (Some d) =
           (case find (\<lambda>u. u_id u = uid) (users d) of
              None \<Rightarrow> Inl (HTTPException 401 User_not_found)
            | Some user \<Rightarrow>
                if u_org_id user \<noteq> oid then Inl (HTTPException 401 Org_mismatch_in_token)
                else Inr \<lparr>a_user = user, auth_type = ''jwt'', api_obj = None, token_payload = Some p\<rparr>)"
proof -
  have "partition_space (scheme @ CHR '' '' # token) = (scheme, token)"
    by (rule partition_space_scheme[OF lower_no_space[OF assms(1)]])
  then show ?thesis using assms
    by (auto simp: bearer_auth_def decode_access_token_def query_def first_filter
             split: option.splits)
qed

lemma unique_user:
  assumes "distinct (map u_id us)" and "u \<in> set us"
  shows "find (\<lambda>v. u_id v = u_id u) us = Some u"
  using assms by (induction us) (auto simp: image_iff)

text \<open>
  Claim C5. A request without API key whose \<open>Authorization\<close> header is a bearer scheme
  and a token that \<open>jwt_decode\<close> accepts, with user id and organisation id among its
  claims: if no user row with that id has that organisation id, the resolution fails as
  Unauthenticated; with user ids unique, a row whose organisation id differs is answered
  401, organisation mismatch; in particular so is a token whose claims were issued for
  a user (\<open>create_access_token\<close>) whose row has another organisation id by now.
\<close>

theorem token_org_mismatch_rejected:
  assumes "\<not> present x_api_key" and "scheme \<noteq> []" and "lower scheme = ''bearer''"
    and "jwt_decode token = Inr p" and "sub p = Some uid" and "org p = Some oid"
  shows "((\<forall>u \<in> set (users d). u_id u = uid \<longrightarrow> u_org_id u \<noteq> oid)
            \<longrightarrow> (\<exists>e. get_current_user H jwt_decode now x_api_key (Some (scheme @ '' '' @ token)) (Some d) = Inl e
                      \<and> Unauthenticated e))
       \<and> (\<forall>u \<in> set (users d).
             u_id u = uid \<and> u_org_id u \<noteq> oid \<and> distinct (map u_id (users d))
             \<longrightarrow> get_current_user H jwt_decode now x_api_key (Some (scheme @ '' '' @ token)) (Some d)
                   = Inl (HTTPException 401 Org_mismatch_in_token))
       \<and> (\<forall>u \<in> set (users d). \<forall>u0 t0.
             p = create_access_token u0 t0 \<and> u_id u = u_id u0 \<and> u_org_id u \<noteq> u_org_id u0
             \<and> distinct (map u_id (users d))
             \<longrightarrow> get_current_user H jwt_decode now x_api_key (Some (scheme @ '' '' @ token)) (Some d)
                   = Inl (HTTPException 401 Org_mismatch_in_token))"
proof -
  have g: "get_current_user H jwt_decode now x_api_key (Some (scheme @ '' '' @ token)) (Some d)
           = bearer_auth jwt_decode (scheme @ '' '' @ token) (Some d)"
    using assms(1,2) by (simp add: get_current_user_def)
  have b: "bearer_auth jwt_decode (scheme @ '' '' @ token) (Some d) =
           (case find (\<lambda>u. u_id u = uid) (users d) of
              None \<Rightarrow> Inl (HTTPException 401 User_not_found)
            | Some user \<Rightarrow>
                if u_org_id user \<noteq> oid then Inl (HTTPException 401 Org_mismatch_in_token)
                else Inr \<lparr>a_user = user, auth_type = ''jwt'', api_obj = None, token_payload = Some p\<rparr>)"
    using assms(3-6) by (rule bearer_auth_decoded)
  note gb = trans[OF g b]
  have one: "(\<forall>u \<in> set (users d). u_id u = uid \<longrightarrow> u_org_id u \<noteq> oid)
            \<longrightarrow> (\<exists>e. get_current_user H jwt_decode now x_api_key (Some (scheme @ '' '' @ token)) (Some d) = Inl e
                      \<and> Unauthenticated e)"
  proof
    assume a: "\<forall>u \<in> set (users d). u_id u = uid \<longrightarrow> u_org_id u \<noteq> oid"
    show "\<exists>e. get_current_user H jwt_decode now x_api_key (Some (scheme @ '' '' @ token)) (Some d) = Inl e
              \<and> Unauthenticated e"
    proof (cases "find (\<lambda>u. u_id u = uid) (users d)")
      case None
      then show ?thesis unfolding gb by simp
    next
      case (Some v)
      then have "v \<in> set (users d)" "u_id v = uid" by (auto simp: find_Some_iff)
      then have "u_org_id v \<noteq> oid" using a by blast
      then show ?thesis using Some unfolding gb by simp
    qed
  qed
  have two: "\<forall>u \<in> set (users d).
             u_id u = uid \<and> u_org_id u \<noteq> oid \<and> distinct (map u_id (users d))
             \<longrightarrow> get_current_user H jwt_decode now x_api_key (Some (scheme @ '' '' @ token)) (Some d)
                   = Inl (HTTPException 401 Org_mismatch_in_token)"
  proof (intro ballI impI)
    fix u assume u: "u \<in> set (users d)"
      and h: "u_id u = uid \<and> u_org_id u \<noteq> oid \<and> distinct (map u_id (users d))"
    have "find (\<lambda>v. u_id v = uid) (users d) = Some u"
      using unique_user[of "users d" u] u h by auto
    then show "get_current_user H jwt_decode now x_api_key (Some (scheme @ '' '' @ token)) (Some d)
                   = Inl (HTTPException 401 Org_mismatch_in_token)"
      using h unfolding gb by simp
  qed
  have three: "\<forall>u \<in> set (users d). \<forall>u0 t0.
             p = create_access_token u0 t0 \<and> u_id u = u_id u0 \<and> u_org_id u \<noteq> u_org_id u0
             \<and> distinct (map u_id (users d))
             \<longrightarrow> get_current_user H jwt_decode now x_api_key (Some (scheme @ '' '' @ token)) (Some d)
                   = Inl (HTTPException 401 Org_mismatch_in_token)"
  proof (intro ballI allI impI)
    fix u u0 t0 assume u: "u \<in> set (users d)"
      and h: "p = create_access_token u0 t0 \<and> u_id u = u_id u0 \<and> u_org_id u \<noteq> u_org_id u0
             \<and> distinct (map u_id (users d))"
    then have "uid = u_id u0" "oid = u_org_id u0"
      using assms(5,6) by (simp_all add: create_access_token_def)
    then show "get_current_user H jwt_decode now x_api_key (Some (scheme @ '' '' @ token)) (Some d)
                   = Inl (HTTPException 401 Org_mismatch_in_token)"
      using two u h by auto
  qed
  show ?thesis using one two three by blast
qed


theorem api_key_resolution_witness:
  "get_current_user (\<lambda>s. ''h:'' @ s) (\<lambda>t. Inl JWTError) 100 (Some ''sk-1'') None
     (Some (serve_all (\<lambda>s. ''h:'' @ s)
        \<lparr>orgs = [], users = [],
          api_keys = [\<lparr>k_id = 5, k_org_id = 1, k_user_id = 2, key_hash = ''h:sk-1'', key_preview = ''sk-1'',
                        k_name = None, scopes = Some ''generate:text'', revoked = True,
                        created_at = 0, expires_at = None\<rparr>]\<rparr>
        [Revoke_request (\<lambda>t. Inl JWTError) 50 5 (Some ''sk-1'') None,
         Signup_request ''org'' ''bob'' ''pw'' False NORMAL]))
   = Inl (HTTPException 401 Invalid_API_key)"
  using api_key_resolution[of "''sk-1''"
        "\<lparr>orgs = [], users = [],
          api_keys = [\<lparr>k_id = 5, k_org_id = 1, k_user_id = 2, key_hash = ''h:sk-1'', key_preview = ''sk-1'',
                        k_name = None, scopes = Some ''generate:text'', revoked = True,
                        created_at = 0, expires_at = None\<rparr>]\<rparr>"
        "\<lambda>s. ''h:'' @ s" "\<lambda>t. Inl JWTError" 100 None]
  by simp

theorem token_org_mismatch_rejected_witness:
  "get_current_user (\<lambda>s. ''h:'' @ s)
     (\<lambda>t. if t = ''tok'' then Inr (create_access_token
               \<lparr>u_id = 2, u_org_id = 1, username = ''bob'', hashed_password = ''pw'',
                 is_admin = False, user_type = NORMAL\<rparr> 0) else Inl JWTError)
     10 None (Some (''Bearer'' @ '' '' @ ''tok''))
     (Some \<lparr>orgs = [],
            users = [\<lparr>u_id = 2, u_org_id = 7, username = ''bob'', hashed_password = ''pw'',
                      is_admin = False, user_type = NORMAL\<rparr>],
            api_keys = []\<rparr>)
   = Inl (HTTPException 401 Org_mismatch_in_token)"
  using token_org_mismatch_rejected[of None "''Bearer''"
     "\<lambda>t. if t = ''tok'' then Inr (create_access_token
               \<lparr>u_id = 2, u_org_id = 1, username = ''bob'', hashed_password = ''pw'',
                 is_admin = False, user_type = NORMAL\<rparr> 0) else Inl JWTError"
     "''tok''"
     "create_access_token
               \<lparr>u_id = 2, u_org_id = 1, username = ''bob'', hashed_password = ''pw'',
                 is_admin = False, user_type = NORMAL\<rparr> 0"
     2 1
     "\<lparr>orgs = [],
            users = [\<lparr>u_id = 2, u_org_id = 7, username = ''bob'', hashed_password = ''pw'',
                      is_admin = False, user_type = NORMAL\<rparr>],
            api_keys = []\<rparr>"
     "\<lambda>s. ''h:'' @ s" 10]
  by (simp add: lower_def lower_char_def create_access_token_def)

section \<open>The protected endpoint: order of the stages, and failures\<close>

lemma generate_request_identity_fails:
  "get_current_user H jd now x a db = Inl e \<Longrightarrow>
   generate_request H jd now rs now_s x a db st = (Inl e, st)"
  by (simp add: generate_request_def)

lemma generate_request_resolved:
  "get_current_user H jd now x a db = Inr auth \<Longrightarrow>
   generate_request H jd now rs now_s x a db st = generate rs now_s st auth"
  by (simp add: generate_request_def)

lemma generate_store: "snd (generate rs now_s st auth) = snd (admit rs st auth now_s)"
  by (auto simp: generate_def admit_def Let_def split: prod.splits option.splits)

lemma limiter_info:
  "rate_limit_check_by_user rs st uid ut now_s = ((False, info), st1) \<Longrightarrow> \<exists>l c. info = Some (l, c)"
  by (auto simp: rate_limit_check_by_user_def Let_def split: if_splits prod.splits)

lemma admit_rejects:
  assumes "\<not> fst (fst (admit rs st auth now_s))"
  shows "\<exists>l c. fst (admit rs st auth now_s) = (False, Some (l, c))"
proof -
  obtain al info st1 where r: "admit rs st auth now_s = ((al, info), st1)"
    by (metis prod.exhaust)
  then have al: "al = False" using assms by simp
  then obtain l c where "info = Some (l, c)"
    using r limiter_info unfolding admit_def by blast
  then show ?thesis using r al by simp
qed

lemma generate_throttled:
  assumes "fst (admit rs st auth now_s) = (False, Some (l, c))"
  shows "fst (generate rs now_s st auth) = Inl (HTTPException 429 (Rate_limit_exceeded l c))"
  using assms by (auto simp: generate_def admit_def Let_def split: prod.splits)

lemma generate_api_key:
  assumes "fst (fst (admit rs st auth now_s))"
    and "auth_type auth = ''api_key''" and "api_obj auth = Some api"
  shows "fst (generate rs now_s st auth) =
           (if ''generate:text'' \<in> set (key_scopes api)
            then Inr (By_api_key_user (u_org_id (a_user auth)) (username (a_user auth)))
            else Inl (HTTPException 403 API_key_missing_required_scope))"
  using assms by (auto simp: generate_def admit_def Let_def split: prod.splits)

lemma generate_jwt:
  assumes "fst (fst (admit rs st auth now_s))" and "auth_type auth = ''jwt''"
  shows "fst (generate rs now_s st auth) = Inr (By_user (u_org_id (a_user auth)) (username (a_user auth)))"
  using assms by (auto simp: generate_def admit_def Let_def split: prod.splits)

lemma resolved_kinds:
  assumes "get_current_user H jd now x a db = Inr auth"
  shows "(auth_type auth = ''api_key'' \<and> api_obj auth \<noteq> None)
         \<or> (auth_type auth = ''jwt'' \<and> api_obj auth = None)"
  using assms
  by (auto simp: get_current_user_def api_key_auth_def bearer_auth_def Let_def
           split: if_splits sum.splits option.splits prod.splits)

lemma admit_counts:
  assumes "user_type (a_user auth) \<noteq> ENTERPRISE" and "rs \<noteq> IncrRaises"
  shows "counter_value (snd (admit rs st auth now_s)) (u_id (a_user auth), now_s)
         = counter_value st (u_id (a_user auth), now_s) + 1"
  using assms
  by (cases "user_type (a_user auth)"; cases rs)
     (auto simp: admit_def rate_limit_check_by_user_def dict_get_def API_KEY_QUOTA_def
                 redis_incr_def redis_expire_def counter_value_def Let_def
           split: option.splits)

lemma admit_leaves_store:
  assumes "user_type (a_user auth) = ENTERPRISE \<or> rs = IncrRaises"
  shows "snd (admit rs st auth now_s) = st"
  using assms
  by (cases "user_type (a_user auth)")
     (auto simp: admit_def rate_limit_check_by_user_def dict_get_def API_KEY_QUOTA_def Let_def)

text \<open>
  Claim C2, amended. The endpoint resolves the caller, then calls the rate limiter, then
  checks the scope, the last for API-key callers only (the order its docstring lists).
  If resolution fails, the request fails with that error and the counter store is left
  as it was. If resolution succeeds, the caller came by API key, with the key row, or
  by token; the store after the request is the store the limiter returned; a caller the
  limiter rejects is answered 429 with the limiter's limit and count, whatever the
  credential and the scopes; an API-key caller the limiter admits is answered 403 if the
  key lacks \<open>generate:text\<close> and is served otherwise; a token caller the limiter admits
  is served, with no scope checked. The store the limiter returned has the counter of
  the caller's window one higher when the caller is not of the ENTERPRISE tier and
  \<open>INCR\<close> did not raise, and is the store as it was when the caller is of the ENTERPRISE
  tier or \<open>INCR\<close> raised.
\<close>

theorem gate_order:
  assumes "get_current_user H jd now x a db = r"
  shows "(\<forall>e. r = Inl e \<longrightarrow> generate_request H jd now rs now_s x a db st = (Inl e, st))
       \<and> (\<forall>auth. r = Inr auth \<longrightarrow>
            ((auth_type auth = ''api_key'' \<and> api_obj auth \<noteq> None)
               \<or> (auth_type auth = ''jwt'' \<and> api_obj auth = None))
            \<and> snd (generate_request H jd now rs now_s x a db st) = snd (admit rs st auth now_s)
            \<and> (\<not> fst (fst (admit rs st auth now_s))
                 \<longrightarrow> (\<exists>l c. fst (admit rs st auth now_s) = (False, Some (l, c))
                          \<and> fst (generate_request H jd now rs now_s x a db st)
                              = Inl (HTTPException 429 (Rate_limit_exceeded l c))))
            \<and> (fst (fst (admit rs st auth now_s))
                 \<longrightarrow> (\<forall>api. auth_type auth = ''api_key'' \<and> api_obj auth = Some api
                        \<longrightarrow> fst (generate_request H jd now rs now_s x a db st) =
                              (if ''generate:text'' \<in> set (key_scopes api)
                               then Inr (By_api_key_user (u_org_id (a_user auth)) (username (a_user auth)))
                               else Inl (HTTPException 403 API_key_missing_required_scope)))
                   \<and> (auth_type auth = ''jwt''
                        \<longrightarrow> fst (generate_request H jd now rs now_s x a db st)
                              = Inr (By_user (u_org_id (a_user auth)) (username (a_user auth)))))
            \<and> (user_type (a_user auth) \<noteq> ENTERPRISE \<and> rs \<noteq> IncrRaises
                 \<longrightarrow> counter_value (snd (generate_request H jd now rs now_s x a db st)) (u_id (a_user auth), now_s)
                       = counter_value st (u_id (a_user auth), now_s) + 1)
            \<and> (user_type (a_user auth) = ENTERPRISE \<or> rs = IncrRaises
                 \<longrightarrow> snd (generate_request H jd now rs now_s x a db st) = st))"
proof -
  have one: "\<forall>e. r = Inl e \<longrightarrow> generate_request H jd now rs now_s x a db st = (Inl e, st)"
    using assms generate_request_identity_fails by blast
  have two: "((auth_type auth = ''api_key'' \<and> api_obj auth \<noteq> None)
               \<or> (auth_type auth = ''jwt'' \<and> api_obj auth = None))
            \<and> snd (generate_request H jd now rs now_s x a db st) = snd (admit rs st auth now_s)
            \<and> (\<not> fst (fst (admit rs st auth now_s))
                 \<longrightarrow> (\<exists>l c. fst (admit rs st auth now_s) = (False, Some (l, c))
                          \<and> fst (generate_request H jd now rs now_s x a db st)
                              = Inl (HTTPException 429 (Rate_limit_exceeded l c))))
            \<and> (fst (fst (admit rs st auth now_s))
                 \<longrightarrow> (\<forall>api. auth_type auth = ''api_key'' \<and> api_obj auth = Some api
                        \<longrightarrow> fst (generate_request H jd now rs now_s x a db st) =
                              (if ''generate:text'' \<in> set (key_scopes api)
                               then Inr (By_api_key_user (u_org_id (a_user auth)) (username (a_user auth)))
                               else Inl (HTTPException 403 API_key_missing_required_scope)))
                   \<and> (auth_type auth = ''jwt''
                        \<longrightarrow> fst (generate_request H jd now rs now_s x a db st)
                              = Inr (By_user (u_org_id (a_user auth)) (username (a_user auth)))))
            \<and> (user_type (a_user auth) \<noteq> ENTERPRISE \<and> rs \<noteq> IncrRaises
                 \<longrightarrow> counter_value (snd (generate_request H jd now rs now_s x a db st)) (u_id (a_user auth), now_s)
                       = counter_value st (u_id (a_user auth), now_s) + 1)
            \<and> (user_type (a_user auth) = ENTERPRISE \<or> rs = IncrRaises
                 \<longrightarrow> snd (generate_request H jd now rs now_s x a db st) = st)"
    if r: "r = Inr auth" for auth
  proof -
    have res: "get_current_user H jd now x a db = Inr auth" using assms r by simp
    have g: "generate_request H jd now rs now_s x a db st = generate rs now_s st auth"
      by (rule generate_request_resolved[OF res])
    have k: "(auth_type auth = ''api_key'' \<and> api_obj auth \<noteq> None)
               \<or> (auth_type auth = ''jwt'' \<and> api_obj auth = None)"
      by (rule resolved_kinds[OF res])
    have s: "snd (generate rs now_s st auth) = snd (admit rs st auth now_s)"
      by (rule generate_store)
    have t: "\<not> fst (fst (admit rs st auth now_s))
                 \<longrightarrow> (\<exists>l c. fst (admit rs st auth now_s) = (False, Some (l, c))
                          \<and> fst (generate rs now_s st auth)
                              = Inl (HTTPException 429 (Rate_limit_exceeded l c)))"
      using admit_rejects generate_throttled by blast
    have f: "fst (fst (admit rs st auth now_s))
                 \<longrightarrow> (\<forall>api. auth_type auth = ''api_key'' \<and> api_obj auth = Some api
                        \<longrightarrow> fst (generate rs now_s st auth) =
                              (if ''generate:text'' \<in> set (key_scopes api)
                               then Inr (By_api_key_user (u_org_id (a_user auth)) (username (a_user auth)))
                               else Inl (HTTPException 403 API_key_missing_required_scope)))
                   \<and> (auth_type auth = ''jwt''
                        \<longrightarrow> fst (generate rs now_s st auth)
                              = Inr (By_user (u_org_id (a_user auth)) (username (a_user auth))))"
      using generate_api_key generate_jwt by blast
    have c: "user_type (a_user auth) \<noteq> ENTERPRISE \<and> rs \<noteq> IncrRaises
                 \<longrightarrow> counter_value (snd (generate rs now_s st auth)) (u_id (a_user auth), now_s)
                       = counter_value st (u_id (a_user auth), now_s) + 1"
      using admit_counts by (simp add: s)
    have u: "user_type (a_user auth) = ENTERPRISE \<or> rs = IncrRaises
                 \<longrightarrow> snd (generate rs now_s st auth) = st"
      using admit_leaves_store by (simp add: s)
    show ?thesis unfolding g using k s t f c u by blast
  qed
  show ?thesis using one two by blast
qed

theorem gate_scope_before_limiter_counterexample:
  "fst (generate_request (\<lambda>s. ''h:'' @ s) (\<lambda>t. Inl JWTError) 100 RedisOK 1000 (Some ''sk-1'') None
     (Some \<lparr>orgs = [\<lparr>o_id = 1, o_name = ''org''\<rparr>],
            users = [\<lparr>u_id = 2, u_org_id = 1, username = ''bob'', hashed_password = ''pw'',
                      is_admin = False, user_type = NORMAL\<rparr>],
            api_keys = [\<lparr>k_id = 5, k_org_id = 1, k_user_id = 2, key_hash = ''h:sk-1'', key_preview = ''sk-1'',
                          k_name = None, scopes = Some ''tts'', revoked = False,
                          created_at = 0, expires_at = None\<rparr>]\<rparr>)
     Map.empty) = Inl (HTTPException 403 API_key_missing_required_scope)
   \<and> Forbidden (HTTPException 403 API_key_missing_required_scope)
   \<and> counter_value Map.empty (2, 1000) = 0
   \<and> counter_value (snd (generate_request (\<lambda>s. ''h:'' @ s) (\<lambda>t. Inl JWTError) 100 RedisOK 1000 (Some ''sk-1'') None
     (Some \<lparr>orgs = [\<lparr>o_id = 1, o_name = ''org''\<rparr>],
            users = [\<lparr>u_id = 2, u_org_id = 1, username = ''bob'', hashed_password = ''pw'',
                      is_admin = False, user_type = NORMAL\<rparr>],
            api_keys = [\<lparr>k_id = 5, k_org_id = 1, k_user_id = 2, key_hash = ''h:sk-1'', key_preview = ''sk-1'',
                          k_name = None, scopes = Some ''tts'', revoked = False,
                          created_at = 0, expires_at = None\<rparr>]\<rparr>)
     Map.empty)) (2, 1000) = 1"
  by (simp add: generate_request_def get_current_user_def api_key_auth_def query_def generate_def
        rate_limit_check_by_user_def dict_get_def API_KEY_QUOTA_def redis_incr_def redis_expire_def
        counter_value_def key_scopes_def Let_def)

theorem gate_order_witness:
  "fst (generate_request (\<lambda>s. ''h:'' @ s) (\<lambda>t. Inl JWTError) 100 RedisOK 1000 (Some ''sk-1'') None
     (Some \<lparr>orgs = [\<lparr>o_id = 1, o_name = ''org''\<rparr>],
            users = [\<lparr>u_id = 2, u_org_id = 1, username = ''bob'', hashed_password = ''pw'',
                      is_admin = False, user_type = NORMAL\<rparr>],
            api_keys = [\<lparr>k_id = 5, k_org_id = 1, k_user_id = 2, key_hash = ''h:sk-1'', key_preview = ''sk-1'',
                          k_name = None, scopes = Some ''tts'', revoked = False,
                          created_at = 0, expires_at = None\<rparr>]\<rparr>)
     (Map.empty((2, 1000) \<mapsto> \<lparr>cnt = 10, ttl = Some 2\<rparr>)))
   = Inl (HTTPException 429 (Rate_limit_exceeded 10 11))"
  using gate_order[where H = "\<lambda>s. ''h:'' @ s" and jd = "\<lambda>t. Inl JWTError" and now = 100
     and x = "Some ''sk-1''" and a = None
     and db = "Some \<lparr>orgs = [\<lparr>o_id = 1, o_name = ''org''\<rparr>],
            users = [\<lparr>u_id = 2, u_org_id = 1, username = ''bob'', hashed_password = ''pw'',
                      is_admin = False, user_type = NORMAL\<rparr>],
            api_keys = [\<lparr>k_id = 5, k_org_id = 1, k_user_id = 2, key_hash = ''h:sk-1'', key_preview = ''sk-1'',
                          k_name = None, scopes = Some ''tts'', revoked = False,
                          created_at = 0, expires_at = None\<rparr>]\<rparr>"
     and r = "Inr \<lparr>a_user = \<lparr>u_id = 2, u_org_id = 1, username = ''bob'', hashed_password = ''pw'',
                      is_admin = False, user_type = NORMAL\<rparr>,
           auth_type = ''api_key'',
           api_obj = Some \<lparr>k_id = 5, k_org_id = 1, k_user_id = 2, key_hash = ''h:sk-1'', key_preview = ''sk-1'',
                          k_name = None, scopes = Some ''tts'', revoked = False,
                          created_at = 0, expires_at = None\<rparr>,
           token_payload = None\<rparr>"
     and rs = RedisOK and now_s = 1000 and st = "Map.empty((2, 1000) \<mapsto> \<lparr>cnt = 10, ttl = Some 2\<rparr>)"]
  by (simp add: get_current_user_def api_key_auth_def query_def admit_def
        rate_limit_check_by_user_def dict_get_def API_KEY_QUOTA_def redis_incr_def Let_def)

lemma limiter_fails_open_incr:
  "rate_limit_check_by_user IncrRaises st uid ut now_s = ((True, None), st)"
  by (simp add: rate_limit_check_by_user_def Let_def)

lemma limiter_fails_open_expire:
  "st (uid, now_s) = None \<Longrightarrow> fst (rate_limit_check_by_user ExpireRaises st uid ut now_s) = (True, None)"
  by (auto simp: rate_limit_check_by_user_def redis_incr_def Let_def split: option.splits)

lemma bad_token_unauthenticated:
  assumes "\<not> present x" and "present a"
    and "lower (fst (partition_space (header a))) = ''bearer''"
    and "jd (snd (partition_space (header a))) = Inl je"
  shows "get_current_user H jd now x a db = Inl (HTTPException 401 Invalid_token)"
  using assms
  by (auto simp: get_current_user_def bearer_auth_def decode_access_token_def Let_def split: prod.splits)

lemma storage_down_key_path:
  "present x \<Longrightarrow> get_current_user H jd now x a None = Inl SQLAlchemyError"
  by (simp add: get_current_user_def api_key_auth_def query_def)

lemma storage_down_iff:
  "get_current_user H jd now x a None = Inl SQLAlchemyError \<longleftrightarrow>
     (present x
      \<or> (present a \<and> lower (fst (partition_space (header a))) = ''bearer''
          \<and> (\<exists>p uid oid. jd (snd (partition_space (header a))) = Inr p
                \<and> sub p = Some uid \<and> org p = Some oid)))"
  by (auto simp: get_current_user_def api_key_auth_def bearer_auth_def query_def
                 decode_access_token_def Let_def
           split: prod.splits sum.splits option.splits)

lemma storage_down_errors:
  "\<exists>e. get_current_user H jd now x a None = Inl e
        \<and> (e = SQLAlchemyError \<or> e = PyTypeError \<or> Unauthenticated e)"
  by (auto simp: get_current_user_def api_key_auth_def bearer_auth_def query_def
                 decode_access_token_def Let_def
           split: prod.splits sum.splits option.splits)

lemma admitted_means_resolved:
  "fst (generate_request H jd now rs now_s x a db st) = Inr g \<Longrightarrow>
   \<exists>auth. get_current_user H jd now x a db = Inr auth"
  by (auto simp: generate_request_def split: sum.splits)

text \<open>
  Claim C8, amended. When \<open>INCR\<close> raises, or \<open>EXPIRE\<close> raises on the first call of a
  window, the limiter returns \<open>(True, None)\<close>, and when \<open>INCR\<close> raised the store is as
  it was. Resolution swallows nothing. A bearer token that \<open>jwt_decode\<close> rejects is
  answered 401, invalid token. With the database out of reach resolution always returns
  an error, and the request fails with it, the counter store untouched. That error is
  the database's own exception, which no handler turns into a 401, exactly when
  resolution reaches the database: on the key path always, on the token path once the
  token is accepted with integer claims; before that point it is a 401 or the error of
  \<open>int()\<close>. And a request that is admitted had its caller resolved.
\<close>

theorem fail_open_only_in_limiter:
  assumes "redis = IncrRaises \<or> (redis = ExpireRaises \<and> st (uid, now_s) = None)"
  shows "fst (rate_limit_check_by_user redis st uid ut now_s) = (True, None)
       \<and> (redis = IncrRaises \<longrightarrow> snd (rate_limit_check_by_user redis st uid ut now_s) = st)
       \<and> (\<forall>je. \<not> present x \<and> present a \<and> lower (fst (partition_space (header a))) = ''bearer''
               \<and> jd (snd (partition_space (header a))) = Inl je
             \<longrightarrow> get_current_user H jd now x a db = Inl (HTTPException 401 Invalid_token))
       \<and> (\<exists>e. get_current_user H jd now x a None = Inl e
               \<and> (e = SQLAlchemyError \<or> e = PyTypeError \<or> Unauthenticated e)
               \<and> generate_request H jd now rs now_s x a None st' = (Inl e, st'))
       \<and> (get_current_user H jd now x a None = Inl SQLAlchemyError \<longleftrightarrow>
             (present x
              \<or> (present a \<and> lower (fst (partition_space (header a))) = ''bearer''
                  \<and> (\<exists>p uid oid. jd (snd (partition_space (header a))) = Inr p
                        \<and> sub p = Some uid \<and> org p = Some oid))))
       \<and> \<not> Unauthenticated SQLAlchemyError
       \<and> (\<forall>g. fst (generate_request H jd now rs now_s x a db st') = Inr g
             \<longrightarrow> (\<exists>auth. get_current_user H jd now x a db = Inr auth))"
proof -
  have one: "fst (rate_limit_check_by_user redis st uid ut now_s) = (True, None)"
    using assms limiter_fails_open_incr[of st uid ut now_s] limiter_fails_open_expire[of st uid now_s ut]
    by auto
  have one': "redis = IncrRaises \<longrightarrow> snd (rate_limit_check_by_user redis st uid ut now_s) = st"
    by (simp add: limiter_fails_open_incr)
  have two: "\<forall>je. \<not> present x \<and> present a \<and> lower (fst (partition_space (header a))) = ''bearer''
               \<and> jd (snd (partition_space (header a))) = Inl je
             \<longrightarrow> get_current_user H jd now x a db = Inl (HTTPException 401 Invalid_token)"
    using bad_token_unauthenticated by blast
  obtain e where e: "get_current_user H jd now x a None = Inl e"
      "e = SQLAlchemyError \<or> e = PyTypeError \<or> Unauthenticated e"
    using storage_down_errors by blast
  then have three: "\<exists>e. get_current_user H jd now x a None = Inl e
               \<and> (e = SQLAlchemyError \<or> e = PyTypeError \<or> Unauthenticated e)
               \<and> generate_request H jd now rs now_s x a None st' = (Inl e, st')"
    using generate_request_identity_fails by blast
  have four: "get_current_user H jd now x a None = Inl SQLAlchemyError \<longleftrightarrow>
             (present x
              \<or> (present a \<and> lower (fst (partition_space (header a))) = ''bearer''
                  \<and> (\<exists>p uid oid. jd (snd (partition_space (header a))) = Inr p
                        \<and> sub p = Some uid \<and> org p = Some oid)))"
    by (rule storage_down_iff)
  have five: "\<forall>g. fst (generate_request H jd now rs now_s x a db st') = Inr g
             \<longrightarrow> (\<exists>auth. get_current_user H jd now x a db = Inr auth)"
    using admitted_means_resolved by blast
  have six: "\<not> Unauthenticated SQLAlchemyError" by simp
  show ?thesis using one one' two three four five six by blast
qed

theorem fail_open_only_in_limiter_witness:
  "fst (rate_limit_check_by_user IncrRaises (Map.empty((2, 1000) \<mapsto> \<lparr>cnt = 10, ttl = Some 2\<rparr>)) 2 ''NORMAL'' 1000)
     = (True, None)
   \<and> get_current_user (\<lambda>s. ''h:'' @ s)
       (\<lambda>t. if t = ''tok'' then Inr (create_access_token
               \<lparr>u_id = 2, u_org_id = 1, username = ''bob'', hashed_password = ''pw'',
                 is_admin = False, user_type = NORMAL\<rparr> 0) else Inl JWTError)
       100 None (Some ''Bearer tok'') None = Inl SQLAlchemyError"
  using fail_open_only_in_limiter[where redis = IncrRaises
           and st = "Map.empty((2, 1000) \<mapsto> \<lparr>cnt = 10, ttl = Some 2\<rparr>)"
           and uid = 2 and now_s = 1000 and ut = "''NORMAL''" and x = None and a = "Some ''Bearer tok''"
           and jd = "\<lambda>t. if t = ''tok'' then Inr (create_access_token
               \<lparr>u_id = 2, u_org_id = 1, username = ''bob'', hashed_password = ''pw'',
                 is_admin = False, user_type = NORMAL\<rparr> 0) else Inl JWTError"
           and H = "\<lambda>s. ''h:'' @ s" and now = 100 and db = None
           and rs = RedisOK and st' = Map.empty]
  by (simp add: partition_space_def lower_def lower_char_def create_access_token_def)

theorem storage_failure_not_unauthenticated_counterexample:
  "get_current_user (\<lambda>s. ''h:'' @ s) (\<lambda>t. Inl JWTError) 100 (Some ''sk-1'') None None = Inl SQLAlchemyError
   \<and> \<not> Unauthenticated SQLAlchemyError"
  by (simp add: get_current_user_def api_key_auth_def query_def)

end
